theory Spec2Isabelle
  imports Complex_Main
begin

section \<open>Elgato Key Light control: data model\<close>

text \<open>
  The source is the class \<open>KeyLight\<close> of the Key Light extension. A JavaScript
  \<open>number\<close> is an IEEE 754 double. A finite double is a rational, and the model's
  numbers are rationals; \<open>NaN\<close> and the infinities, which a JSON body cannot hold, are
  outside the type. A string is the list of the bytes of its UTF-8 encoding. A port is a
  natural number.
\<close>

subsection \<open>Rounding to a double\<close>

text \<open>
  \<open>double x\<close> is the double nearest to \<open>x\<close>, ties going to the even significand: the
  result of an arithmetic operation whose exact value is \<open>x\<close>. \<open>exponent x\<close> is the
  integer \<open>e\<close> with \<open>2\<^sup>e \<le> |x| < 2\<^sup>e\<^sup>+\<^sup>1\<close>; the
  doubles around \<open>x\<close> are the multiples of \<open>2\<^sup>e\<^sup>-\<^sup>5\<^sup>2\<close>, and
  of \<open>2\<^sup>-\<^sup>1\<^sup>0\<^sup>7\<^sup>4\<close> in the subnormal range. A result
  beyond the largest double would be an infinity and is not modelled.
\<close>

fun bit_length :: "nat \<Rightarrow> nat" where
  "bit_length n = (if n = 0 then 0 else Suc (bit_length (n div 2)))"

declare bit_length.simps [simp del]

definition exponent :: "rat \<Rightarrow> int" where
  "exponent x =
     (if 1 \<le> \<bar>x\<bar> then int (bit_length (nat \<lfloor>\<bar>x\<bar>\<rfloor>)) - 1
      else - int (bit_length (nat (\<lceil>1 / \<bar>x\<bar>\<rceil> - 1))))"

definition round_half_even :: "rat \<Rightarrow> int" where
  "round_half_even r =
     (if r - of_int \<lfloor>r\<rfloor> < 1 / 2 then \<lfloor>r\<rfloor>
      else if 1 / 2 < r - of_int \<lfloor>r\<rfloor> then \<lfloor>r\<rfloor> + 1
      else if even \<lfloor>r\<rfloor> then \<lfloor>r\<rfloor> else \<lfloor>r\<rfloor> + 1)"

definition double :: "rat \<Rightarrow> rat" where
  "double x =
     (let u = 2 powi max (exponent x - 52) (- 1074)
      in u * of_int (round_half_even (x / u)))"

subsection \<open>Constants and records\<close>

text \<open>
  The step is the double that the division gives: \<open>201 / 20\<close> is not a double, and
  the step is a little above it.
\<close>

definition WARM_TEMPERATURE :: rat where
  "WARM_TEMPERATURE = 344"

definition COLD_TEMPERATURE :: rat where
  "COLD_TEMPERATURE = 143"

definition TEMPERATURE_STEP :: rat where
  "TEMPERATURE_STEP = double (double (WARM_TEMPERATURE - COLD_TEMPERATURE) / 20)"

record Preferences =
  keyLights_count :: string
  keyLights_ips :: "string option"

record KeylightConfig =
  ip :: string
  port :: nat

text \<open>
  An element of the \<open>lights\<close> array of a device's answer, with the three fields of the
  wire protocol.
\<close>

record light =
  on :: bool
  brightness :: rat
  temperature :: rat

text \<open>
  The argument of \<open>updateKeyLight\<close>,
  \<^verbatim>\<open>{ brightness?: number; temperature?: number; on?: boolean }\<close>:
  an absent field is \<open>None\<close>.
\<close>

record options =
  brightness_opt :: "rat option"
  temperature_opt :: "rat option"
  on_opt :: "bool option"

definition no_options :: options where
  "no_options = \<lparr>brightness_opt = None, temperature_opt = None, on_opt = None\<rparr>"

text \<open>
  The HTTP client. \<open>axios_get url w\<close> answers \<open>Some lights\<close>, the array
  \<open>response.data.lights\<close>, when the promise of \<^verbatim>\<open>axios.get(url)\<close> fulfils with
  a body that has one, and \<open>None\<close> when it rejects or the body has no such array: both
  throw inside the \<open>try\<close> of \<open>getKeyLight\<close>. \<open>axios_put url body w\<close> answers
  whether \<^verbatim>\<open>axios.put\<close> fulfilled. Both may change the world \<open>w\<close> behind the
  network.
\<close>

record 'w axios =
  axios_get :: "string \<Rightarrow> 'w \<Rightarrow> light list option \<times> 'w"
  axios_put :: "string \<Rightarrow> options \<Rightarrow> 'w \<Rightarrow> bool \<times> 'w"

text \<open>
  One entry per HTTP call made, with its outcome: the calls are the only effect of the
  control operations, and the trace is what "attempted" and "pushed" are stated on.
\<close>

datatype exchange =
  GET string "light list option"
| PUT string options bool

text \<open>
  The state the class works on: the static field \<open>KeyLight.keyLights\<close>, the world
  behind the network, and the calls made so far (oldest first).
\<close>

record 'w KeyLight =
  keyLights :: "KeylightConfig list"
  net :: 'w
  trace :: "exchange list"

section \<open>Device client\<close>

text \<open>Template literals print a number in decimal.\<close>

fun show_nat :: "nat \<Rightarrow> string" where
  "show_nat n =
     (if n < 10 then [''0123456789'' ! n]
      else show_nat (n div 10) @ [''0123456789'' ! (n mod 10)])"

declare show_nat.simps [simp del]

definition lights_url :: "KeylightConfig \<Rightarrow> string" where
  "lights_url config =
     ''http://'' @ ip config @ '':'' @ show_nat (port config) @ ''/elgato/lights''"

text \<open>
  \<open>getKeyLight\<close> returns \<open>response.data.lights[0]\<close>, which is \<open>undefined\<close>
  (\<open>None\<close>) on an empty array; a rejected request is rethrown with a message naming the
  phase and the URL.
\<close>

definition getKeyLight ::
  "'w axios \<Rightarrow> KeylightConfig \<Rightarrow> 'w KeyLight \<Rightarrow> (string + light option) \<times> 'w KeyLight" where
  "getKeyLight ax config s =
     (let url = lights_url config in
      case axios_get ax url (net s) of
        (None, w) \<Rightarrow>
          (Inl (''Failed to fetch Key Light state from '' @ url),
           s\<lparr>net := w, trace := trace s @ [GET url None]\<rparr>)
      | (Some lights, w) \<Rightarrow>
          (Inr (case lights of [] \<Rightarrow> None | l # _ \<Rightarrow> Some l),
           s\<lparr>net := w, trace := trace s @ [GET url (Some lights)]\<rparr>))"

definition updateKeyLight ::
  "'w axios \<Rightarrow> KeylightConfig \<Rightarrow> options \<Rightarrow> 'w KeyLight \<Rightarrow> (string + unit) \<times> 'w KeyLight" where
  "updateKeyLight ax config opts s =
     (let url = lights_url config in
      case axios_put ax url opts (net s) of
        (False, w) \<Rightarrow>
          (Inl (''Failed to update Key Light state at '' @ url),
           s\<lparr>net := w, trace := trace s @ [PUT url opts False]\<rparr>)
      | (True, w) \<Rightarrow>
          (Inr (), s\<lparr>net := w, trace := trace s @ [PUT url opts True]\<rparr>))"

section \<open>Control operations\<close>

text \<open>
  Each operation is a \<open>for\<close> loop over the registry whose body is one \<open>try\<close>: any
  exception of the body (a failed fetch, reading a field of \<open>undefined\<close>, a failed
  push) is caught and replaced by the operation's own message, which ends the loop. The
  loop variable declared before the loop (\<open>newState\<close>, \<open>newBrightness\<close>,
  \<open>newTemperature\<close>) starts \<open>undefined\<close> (\<open>None\<close>) and is what the operation
  returns. Adding the step to a temperature, or taking it off, is rounded to a double.
  Adding 5 to a brightness, or taking 5 off, is written exactly: on the integers a device
  reports, the exact sum is the double.
\<close>

fun toggle_loop ::
  "'w axios \<Rightarrow> KeylightConfig list \<Rightarrow> bool option \<Rightarrow> 'w KeyLight
     \<Rightarrow> (string + bool option) \<times> 'w KeyLight" where
  "toggle_loop ax [] newState s = (Inr newState, s)"
| "toggle_loop ax (keyLight # rest) newState s =
     (case getKeyLight ax keyLight s of
        (Inl e, s1) \<Rightarrow> (Inl (''Failed toggling Key Light at '' @ ip keyLight), s1)
      | (Inr None, s1) \<Rightarrow> (Inl (''Failed toggling Key Light at '' @ ip keyLight), s1)
      | (Inr (Some state), s1) \<Rightarrow>
          (let newState' = (\<not> on state) in
           case updateKeyLight ax keyLight (no_options\<lparr>on_opt := Some newState'\<rparr>) s1 of
             (Inl e, s2) \<Rightarrow> (Inl (''Failed toggling Key Light at '' @ ip keyLight), s2)
           | (Inr u, s2) \<Rightarrow> toggle_loop ax rest (Some newState') s2))"

definition toggle :: "'w axios \<Rightarrow> 'w KeyLight \<Rightarrow> (string + bool option) \<times> 'w KeyLight" where
  "toggle ax s = toggle_loop ax (keyLights s) None s"

fun increaseBrightness_loop ::
  "'w axios \<Rightarrow> KeylightConfig list \<Rightarrow> rat option \<Rightarrow> 'w KeyLight
     \<Rightarrow> (string + rat option) \<times> 'w KeyLight" where
  "increaseBrightness_loop ax [] newBrightness s = (Inr newBrightness, s)"
| "increaseBrightness_loop ax (keyLight # rest) newBrightness s =
     (case getKeyLight ax keyLight s of
        (Inl e, s1) \<Rightarrow> (Inl (''Failed increasing brightness for '' @ ip keyLight), s1)
      | (Inr None, s1) \<Rightarrow> (Inl (''Failed increasing brightness for '' @ ip keyLight), s1)
      | (Inr (Some state), s1) \<Rightarrow>
          (let newBrightness' = min (brightness state + 5) 100 in
           case updateKeyLight ax keyLight
                  (no_options\<lparr>brightness_opt := Some newBrightness'\<rparr>) s1 of
             (Inl e, s2) \<Rightarrow> (Inl (''Failed increasing brightness for '' @ ip keyLight), s2)
           | (Inr u, s2) \<Rightarrow> increaseBrightness_loop ax rest (Some newBrightness') s2))"

definition increaseBrightness ::
  "'w axios \<Rightarrow> 'w KeyLight \<Rightarrow> (string + rat option) \<times> 'w KeyLight" where
  "increaseBrightness ax s = increaseBrightness_loop ax (keyLights s) None s"

fun decreaseBrightness_loop ::
  "'w axios \<Rightarrow> KeylightConfig list \<Rightarrow> rat option \<Rightarrow> 'w KeyLight
     \<Rightarrow> (string + rat option) \<times> 'w KeyLight" where
  "decreaseBrightness_loop ax [] newBrightness s = (Inr newBrightness, s)"
| "decreaseBrightness_loop ax (keyLight # rest) newBrightness s =
     (case getKeyLight ax keyLight s of
        (Inl e, s1) \<Rightarrow> (Inl (''Failed decreasing brightness for '' @ ip keyLight), s1)
      | (Inr None, s1) \<Rightarrow> (Inl (''Failed decreasing brightness for '' @ ip keyLight), s1)
      | (Inr (Some state), s1) \<Rightarrow>
          (let newBrightness' = max (brightness state - 5) 0 in
           case updateKeyLight ax keyLight
                  (no_options\<lparr>brightness_opt := Some newBrightness'\<rparr>) s1 of
             (Inl e, s2) \<Rightarrow> (Inl (''Failed decreasing brightness for '' @ ip keyLight), s2)
           | (Inr u, s2) \<Rightarrow> decreaseBrightness_loop ax rest (Some newBrightness') s2))"

definition decreaseBrightness ::
  "'w axios \<Rightarrow> 'w KeyLight \<Rightarrow> (string + rat option) \<times> 'w KeyLight" where
  "decreaseBrightness ax s = decreaseBrightness_loop ax (keyLights s) None s"

fun increaseTemperature_loop ::
  "'w axios \<Rightarrow> KeylightConfig list \<Rightarrow> rat option \<Rightarrow> 'w KeyLight
     \<Rightarrow> (string + rat option) \<times> 'w KeyLight" where
  "increaseTemperature_loop ax [] newTemperature s = (Inr newTemperature, s)"
| "increaseTemperature_loop ax (keyLight # rest) newTemperature s =
     (case getKeyLight ax keyLight s of
        (Inl e, s1) \<Rightarrow> (Inl (''Failed increasing temperature for '' @ ip keyLight), s1)
      | (Inr None, s1) \<Rightarrow> (Inl (''Failed increasing temperature for '' @ ip keyLight), s1)
      | (Inr (Some state), s1) \<Rightarrow>
          (let newTemperature' =
                 min (double (temperature state + TEMPERATURE_STEP)) WARM_TEMPERATURE in
           case updateKeyLight ax keyLight
                  (no_options\<lparr>temperature_opt := Some newTemperature'\<rparr>) s1 of
             (Inl e, s2) \<Rightarrow> (Inl (''Failed increasing temperature for '' @ ip keyLight), s2)
           | (Inr u, s2) \<Rightarrow> increaseTemperature_loop ax rest (Some newTemperature') s2))"

definition increaseTemperature ::
  "'w axios \<Rightarrow> 'w KeyLight \<Rightarrow> (string + rat option) \<times> 'w KeyLight" where
  "increaseTemperature ax s = increaseTemperature_loop ax (keyLights s) None s"

fun decreaseTemperature_loop ::
  "'w axios \<Rightarrow> KeylightConfig list \<Rightarrow> rat option \<Rightarrow> 'w KeyLight
     \<Rightarrow> (string + rat option) \<times> 'w KeyLight" where
  "decreaseTemperature_loop ax [] newTemperature s = (Inr newTemperature, s)"
| "decreaseTemperature_loop ax (keyLight # rest) newTemperature s =
     (case getKeyLight ax keyLight s of
        (Inl e, s1) \<Rightarrow> (Inl (''Failed decreasing temperature for '' @ ip keyLight), s1)
      | (Inr None, s1) \<Rightarrow> (Inl (''Failed decreasing temperature for '' @ ip keyLight), s1)
      | (Inr (Some state), s1) \<Rightarrow>
          (let newTemperature' =
                 max (double (temperature state - TEMPERATURE_STEP)) COLD_TEMPERATURE in
           case updateKeyLight ax keyLight
                  (no_options\<lparr>temperature_opt := Some newTemperature'\<rparr>) s1 of
             (Inl e, s2) \<Rightarrow> (Inl (''Failed decreasing temperature for '' @ ip keyLight), s2)
           | (Inr u, s2) \<Rightarrow> decreaseTemperature_loop ax rest (Some newTemperature') s2))"

definition decreaseTemperature ::
  "'w axios \<Rightarrow> 'w KeyLight \<Rightarrow> (string + rat option) \<times> 'w KeyLight" where
  "decreaseTemperature ax s = decreaseTemperature_loop ax (keyLights s) None s"

section \<open>Discovery\<close>

text \<open>
  \<open>String.prototype.trim\<close> removes the white space and line terminator code points
  at both ends: the six of ASCII, U+00A0, U+1680, U+2000 to U+200A, U+2028, U+2029,
  U+202F, U+205F, U+3000 and U+FEFF. \<open>white_space\<close> lists their UTF-8 encodings, of one
  to three bytes; \<open>strip ws str\<close> removes from the front of \<open>str\<close> every leading run of
  byte sequences of \<open>ws\<close>.
\<close>

definition white_space :: "string list" where
  "white_space =
     [[CHR 0x09], [CHR 0x0A], [CHR 0x0B], [CHR 0x0C], [CHR 0x0D], [CHR 0x20],
      [CHR 0xC2, CHR 0xA0], [CHR 0xE1, CHR 0x9A, CHR 0x80],
      [CHR 0xE2, CHR 0x80, CHR 0x80], [CHR 0xE2, CHR 0x80, CHR 0x81],
      [CHR 0xE2, CHR 0x80, CHR 0x82], [CHR 0xE2, CHR 0x80, CHR 0x83],
      [CHR 0xE2, CHR 0x80, CHR 0x84], [CHR 0xE2, CHR 0x80, CHR 0x85],
      [CHR 0xE2, CHR 0x80, CHR 0x86], [CHR 0xE2, CHR 0x80, CHR 0x87],
      [CHR 0xE2, CHR 0x80, CHR 0x88], [CHR 0xE2, CHR 0x80, CHR 0x89],
      [CHR 0xE2, CHR 0x80, CHR 0x8A], [CHR 0xE2, CHR 0x80, CHR 0xA8],
      [CHR 0xE2, CHR 0x80, CHR 0xA9], [CHR 0xE2, CHR 0x80, CHR 0xAF],
      [CHR 0xE2, CHR 0x81, CHR 0x9F], [CHR 0xE3, CHR 0x80, CHR 0x80],
      [CHR 0xEF, CHR 0xBB, CHR 0xBF]]"

fun strip :: "string list \<Rightarrow> string \<Rightarrow> string" where
  "strip ws [] = []"
| "strip ws [a] = (if [a] \<in> set ws then [] else [a])"
| "strip ws [a, b] =
     (if [a] \<in> set ws then strip ws [b]
      else if [a, b] \<in> set ws then []
      else [a, b])"
| "strip ws (a # b # c # rest) =
     (if [a] \<in> set ws then strip ws (b # c # rest)
      else if [a, b] \<in> set ws then strip ws (c # rest)
      else if [a, b, c] \<in> set ws then strip ws rest
      else a # b # c # rest)"

definition trim_start :: "string \<Rightarrow> string" where
  "trim_start str = strip white_space str"

definition trim_end :: "string \<Rightarrow> string" where
  "trim_end str = rev (strip (map rev white_space) (rev str))"

definition trim :: "string \<Rightarrow> string" where
  "trim str = trim_end (trim_start str)"

text \<open>\<open>str.split(",")\<close>: the pieces between the commas; the empty string gives one empty piece.\<close>

fun split_comma :: "string \<Rightarrow> string list" where
  "split_comma [] = [[]]"
| "split_comma (c # cs) =
     (if c = CHR '','' then [] # split_comma cs
      else (case split_comma cs of
              [] \<Rightarrow> [[c]]
            | piece # pieces \<Rightarrow> (c # piece) # pieces))"

text \<open>
  \<open>parseInt(str, 10)\<close>: leading white space is skipped, then an optional sign, then
  the longest run of decimal digits is read; without a digit the result is \<open>NaN\<close>. The
  number read is rounded to a double, which changes nothing up to \<open>2\<^sup>5\<^sup>3\<close>.
  The result is only ever compared with the length of an array, and neither \<open>NaN\<close> nor
  a number above \<open>2\<^sup>5\<^sup>3\<close>, rounded or not, is the length of one: both are
  \<open>None\<close> here.
\<close>

definition is_digit :: "char \<Rightarrow> bool" where
  "is_digit c \<longleftrightarrow> (48::nat) \<le> of_char c \<and> of_char c \<le> (57::nat)"

definition digits_value :: "string \<Rightarrow> nat" where
  "digits_value ds = foldl (\<lambda>a c. 10 * a + (of_char c - 48)) 0 ds"

definition parseInt :: "string \<Rightarrow> int option" where
  "parseInt str =
     (let s = trim_start str;
          negative = (case s of [] \<Rightarrow> False | c # cs \<Rightarrow> c = CHR ''-'');
          signed = (case s of [] \<Rightarrow> False | c # cs \<Rightarrow> c = CHR ''-'' \<or> c = CHR ''+'');
          ds = takeWhile is_digit (if signed then tl s else s)
      in if ds = [] \<or> 2 ^ 53 < digits_value ds then None
         else Some (if negative then - int (digits_value ds) else int (digits_value ds)))"

text \<open>
  A promise settles once: \<open>resolve\<close> and \<open>reject\<close> on a settled promise do nothing.
  The source resolves \<open>find\<close> with the array held in the static field, not with a
  copy of it: the value of the promise is a reference, and what is read through it is the
  registry as it is at the time of reading.
\<close>

datatype array_ref = KeyLights_array

datatype 'a promise = Pending | Fulfilled 'a | Rejected string

definition resolve :: "'a promise \<Rightarrow> 'a \<Rightarrow> 'a promise" where
  "resolve p v = (case p of Pending \<Rightarrow> Fulfilled v | _ \<Rightarrow> p)"

definition reject :: "'a promise \<Rightarrow> string \<Rightarrow> 'a promise" where
  "reject p e = (case p of Pending \<Rightarrow> Rejected e | _ \<Rightarrow> p)"

text \<open>
  What the callback of \<open>bonjour.find\<close> reads of an announced service:
  \<open>service.referer?.address\<close> (\<open>None\<close> when the referer or its address is missing)
  and \<open>service.port\<close>.
\<close>

record RemoteService =
  referer_address :: "string option"
  service_port :: nat

text \<open>
  The state of a running Bonjour discovery: the class state, the parsed target
  \<open>count\<close>, the promise \<open>find\<close>, and whether \<open>bonjour.destroy()\<close> has been called.
\<close>

record 'w browsing =
  app :: "'w KeyLight"
  count :: "int option"
  find :: "array_ref promise"
  destroyed :: bool

text \<open>
  \<open>discover\<close> either fills the registry from the static list and returns, or resets
  the registry and leaves a browser and a timer running. In the second case the source
  hands the promise \<open>find\<close> to \<open>waitUntil\<close>, which is outside this file: the
  model stops at \<open>find\<close>, and "discovery resolves" or "is rejected" is said of it.
\<close>

datatype 'w discovered = Static "'w KeyLight" | Browsing "'w browsing"

definition start_browsing :: "Preferences \<Rightarrow> 'w KeyLight \<Rightarrow> 'w browsing" where
  "start_browsing preferences s =
     \<lparr>app = s\<lparr>keyLights := []\<rparr>,
      count = parseInt (keyLights_count preferences),
      find = Pending,
      destroyed = False\<rparr>"

definition discover :: "Preferences \<Rightarrow> 'w KeyLight \<Rightarrow> 'w discovered" where
  "discover preferences s =
     (case keyLights_ips preferences of
        None \<Rightarrow> Browsing (start_browsing preferences s)
      | Some str \<Rightarrow>
          if str = [] then Browsing (start_browsing preferences s)
          else (let ips = map trim (split_comma str) in
                Static (s\<lparr>keyLights := map (\<lambda>ip. \<lparr>ip = ip, port = 9123\<rparr>) ips\<rparr>)))"

text \<open>The callback given to \<open>bonjour.find\<close>.\<close>

definition on_service :: "RemoteService \<Rightarrow> 'w browsing \<Rightarrow> 'w browsing" where
  "on_service service b =
     (case referer_address service of
        None \<Rightarrow> b
      | Some address \<Rightarrow>
          if address \<noteq> [] \<and> service_port service \<noteq> 0 then
            (let keylightConfig = \<lparr>ip = address, port = service_port service\<rparr>;
                 b1 = b\<lparr>app := (app b)\<lparr>keyLights := keyLights (app b) @ [keylightConfig]\<rparr>\<rparr>
             in if Some (int (length (keyLights (app b1)))) = count b1
                then b1\<lparr>find := resolve (find b1) KeyLights_array, destroyed := True\<rparr>
                else b1)
          else b)"

text \<open>The callback given to \<open>setTimeout\<close>.\<close>

definition on_timeout :: "'w browsing \<Rightarrow> 'w browsing" where
  "on_timeout b =
     (if length (keyLights (app b)) = 0
      then b\<lparr>find := reject (find b) ''Cannot discover any Key Lights in the network''\<rparr>
      else b)"

text \<open>
  Callbacks run one at a time, to completion. Which announcements the library still
  hands to the callback once \<open>bonjour.destroy()\<close> has been called is the library's
  matter; the callback has no test of its own, and runs on whatever it is handed. The
  timer is never cleared, so its callback runs whatever the browser's state.
\<close>

datatype event = Up RemoteService | Timeout

fun deliver :: "event \<Rightarrow> 'w browsing \<Rightarrow> 'w browsing" where
  "deliver (Up service) b = on_service service b"
| "deliver Timeout b = on_timeout b"

definition deliver_all :: "event list \<Rightarrow> 'w browsing \<Rightarrow> 'w browsing" where
  "deliver_all evs b = fold deliver evs b"

text \<open>
  A static address list as it is written in the preferences: the entries, separated by
  commas.
\<close>

fun comma_separated :: "string list \<Rightarrow> string" where
  "comma_separated [] = []"
| "comma_separated [e] = e"
| "comma_separated (e # es) = e @ CHR '','' # comma_separated es"

section \<open>Devices behind the network\<close>

text \<open>
  The devices of the wire protocol: a device is reached by its URL, answers a GET with
  its one light and applies the fields of a PUT to it, leaving the others as they are.
  A URL with no device behind it makes both requests fail.
\<close>

type_synonym devices = "string \<rightharpoonup> light"

definition merge_options :: "options \<Rightarrow> light \<Rightarrow> light" where
  "merge_options opts l =
     \<lparr>on = (case on_opt opts of None \<Rightarrow> on l | Some v \<Rightarrow> v),
      brightness = (case brightness_opt opts of None \<Rightarrow> brightness l | Some v \<Rightarrow> v),
      temperature = (case temperature_opt opts of None \<Rightarrow> temperature l | Some v \<Rightarrow> v)\<rparr>"

definition device_axios :: "devices axios" where
  "device_axios =
     \<lparr>axios_get = (\<lambda>url w. case w url of None \<Rightarrow> (None, w) | Some l \<Rightarrow> (Some [l], w)),
      axios_put = (\<lambda>url opts w. case w url of
                     None \<Rightarrow> (False, w)
                   | Some l \<Rightarrow> (True, w(url \<mapsto> merge_options opts l)))\<rparr>"

section \<open>The common shape of the control operations\<close>

text \<open>
  The five loops differ in the value computed from the fetched state, the field pushed
  and the message; \<open>control_loop\<close> is their common shape, used to prove facts about all
  five at once.
\<close>

fun control_loop ::
  "(light \<Rightarrow> 'v) \<Rightarrow> ('v \<Rightarrow> options) \<Rightarrow> string \<Rightarrow> 'w axios \<Rightarrow> KeylightConfig list \<Rightarrow> 'v option
     \<Rightarrow> 'w KeyLight \<Rightarrow> (string + 'v option) \<times> 'w KeyLight" where
  "control_loop f field msg ax [] new s = (Inr new, s)"
| "control_loop f field msg ax (keyLight # rest) new s =
     (case getKeyLight ax keyLight s of
        (Inl e, s1) \<Rightarrow> (Inl (msg @ ip keyLight), s1)
      | (Inr None, s1) \<Rightarrow> (Inl (msg @ ip keyLight), s1)
      | (Inr (Some state), s1) \<Rightarrow>
          (case updateKeyLight ax keyLight (field (f state)) s1 of
             (Inl e, s2) \<Rightarrow> (Inl (msg @ ip keyLight), s2)
           | (Inr u, s2) \<Rightarrow> control_loop f field msg ax rest (Some (f state)) s2))"

section \<open>Reading the trace\<close>

text \<open>
  \<open>fetched\<close> lists the states the loops read (element 0 of each answered GET that has
  one), \<open>pushed\<close> the bodies of the PUTs attempted, both in the order of the calls.
  \<open>failure_at url x\<close> says that \<open>x\<close> is an exchange with \<open>url\<close> on which the body
  of a loop throws: a rejected GET, a GET answered without a light, or a rejected PUT.
\<close>

fun fetched :: "exchange list \<Rightarrow> light list" where
  "fetched [] = []"
| "fetched (GET url (Some (l # others)) # xs) = l # fetched xs"
| "fetched (x # xs) = fetched xs"

fun pushed :: "exchange list \<Rightarrow> options list" where
  "pushed [] = []"
| "pushed (PUT url opts ok # xs) = opts # pushed xs"
| "pushed (x # xs) = pushed xs"

fun failure_at :: "string \<Rightarrow> exchange \<Rightarrow> bool" where
  "failure_at url (GET u None) = (u = url)"
| "failure_at url (GET u (Some lights)) = (u = url \<and> lights = [])"
| "failure_at url (PUT u opts ok) = (u = url \<and> \<not> ok)"

text \<open>
  \<open>exchanges_of run s\<close> are the calls \<open>run\<close> makes when started in \<open>s\<close>: what it
  adds to the trace. \<open>single_attempt url xs\<close> says that \<open>xs\<close> is one fetch from
  \<open>url\<close>, followed or not by one push to it, and nothing else.
\<close>

definition exchanges_of :: "('w KeyLight \<Rightarrow> 'r \<times> 'w KeyLight) \<Rightarrow> 'w KeyLight \<Rightarrow> exchange list" where
  "exchanges_of run s = drop (length (trace s)) (trace (snd (run s)))"

fun single_attempt :: "string \<Rightarrow> exchange list \<Rightarrow> bool" where
  "single_attempt url [GET u r] = (u = url)"
| "single_attempt url [GET u r, PUT u' opts ok] = (u = url \<and> u' = url)"
| "single_attempt url xs = False"

text \<open>\<open>Number.isInteger\<close> on the rationals.\<close>

definition is_integer :: "rat \<Rightarrow> bool" where
  "is_integer x \<longleftrightarrow> of_int \<lfloor>x\<rfloor> = x"

text \<open>A device that answers every GET and refuses every PUT.\<close>

definition read_only_axios :: "devices axios" where
  "read_only_axios = device_axios\<lparr>axios_put := (\<lambda>url opts w. (False, w))\<rparr>"

text \<open>What one successful toggle does to the device behind a URL.\<close>

definition flip_power :: "string \<Rightarrow> devices \<Rightarrow> devices" where
  "flip_power url w = (case w url of None \<Rightarrow> w | Some l \<Rightarrow> w(url \<mapsto> l\<lparr>on := \<not> on l\<rparr>))"

section \<open>Concrete inputs\<close>

text \<open>One Key Light on the desk, at a fixed address, and the registries used below.\<close>

definition desk :: KeylightConfig where
  "desk = \<lparr>ip = ''192.168.1.20'', port = 9123\<rparr>"

definition shelf :: KeylightConfig where
  "shelf = \<lparr>ip = ''192.168.1.21'', port = 9123\<rparr>"

definition no_lights :: "devices KeyLight" where
  "no_lights = \<lparr>keyLights = [], net = Map.empty, trace = []\<rparr>"

text \<open>The desk light alone in the registry, reporting the given state.\<close>

definition desk_light :: "bool \<Rightarrow> rat \<Rightarrow> rat \<Rightarrow> devices KeyLight" where
  "desk_light p b t =
     \<lparr>keyLights = [desk],
      net = [lights_url desk \<mapsto> \<lparr>on = p, brightness = b, temperature = t\<rparr>],
      trace = []\<rparr>"

text \<open>Two lights in the registry: none reachable, or only the desk light.\<close>

definition unplugged :: "devices KeyLight" where
  "unplugged = \<lparr>keyLights = [desk, shelf], net = Map.empty, trace = []\<rparr>"

definition desk_only :: "devices KeyLight" where
  "desk_only =
     \<lparr>keyLights = [desk, shelf],
      net = [lights_url desk \<mapsto> \<lparr>on = True, brightness = 40, temperature = 200\<rparr>],
      trace = []\<rparr>"

definition ips_preferences :: Preferences where
  "ips_preferences = \<lparr>keyLights_count = ''2'', keyLights_ips = Some ''192.168.1.20, 192.168.1.21 ''\<rparr>"

definition empty_ips_preferences :: Preferences where
  "empty_ips_preferences = \<lparr>keyLights_count = ''2'', keyLights_ips = Some []\<rparr>"

text \<open>Preferences without a static list, and two announcements.\<close>

definition one_preferences :: Preferences where
  "one_preferences = \<lparr>keyLights_count = ''1'', keyLights_ips = None\<rparr>"

definition two_preferences :: Preferences where
  "two_preferences = \<lparr>keyLights_count = ''2'', keyLights_ips = None\<rparr>"

definition desk_service :: RemoteService where
  "desk_service = \<lparr>referer_address = Some ''192.168.1.20'', service_port = 9123\<rparr>"

definition shelf_service :: RemoteService where
  "shelf_service = \<lparr>referer_address = Some ''192.168.1.21'', service_port = 9123\<rparr>"

section \<open>The five loops have the common shape\<close>

lemma toggle_loop_control:
  "toggle_loop ax ks new s =
     control_loop (\<lambda>state. \<not> on state) (\<lambda>v. no_options\<lparr>on_opt := Some v\<rparr>)
       ''Failed toggling Key Light at '' ax ks new s"
  by (induction ks arbitrary: new s)
     (simp_all add: Let_def split: prod.split sum.split option.split)

lemma increaseBrightness_loop_control:
  "increaseBrightness_loop ax ks new s =
     control_loop (\<lambda>state. min (brightness state + 5) 100)
       (\<lambda>v. no_options\<lparr>brightness_opt := Some v\<rparr>)
       ''Failed increasing brightness for '' ax ks new s"
  by (induction ks arbitrary: new s)
     (simp_all add: Let_def split: prod.split sum.split option.split)

lemma decreaseBrightness_loop_control:
  "decreaseBrightness_loop ax ks new s =
     control_loop (\<lambda>state. max (brightness state - 5) 0)
       (\<lambda>v. no_options\<lparr>brightness_opt := Some v\<rparr>)
       ''Failed decreasing brightness for '' ax ks new s"
  by (induction ks arbitrary: new s)
     (simp_all add: Let_def split: prod.split sum.split option.split)

lemma increaseTemperature_loop_control:
  "increaseTemperature_loop ax ks new s =
     control_loop (\<lambda>state. min (double (temperature state + TEMPERATURE_STEP)) WARM_TEMPERATURE)
       (\<lambda>v. no_options\<lparr>temperature_opt := Some v\<rparr>)
       ''Failed increasing temperature for '' ax ks new s"
  by (induction ks arbitrary: new s)
     (simp_all add: Let_def split: prod.split sum.split option.split)

lemma decreaseTemperature_loop_control:
  "decreaseTemperature_loop ax ks new s =
     control_loop (\<lambda>state. max (double (temperature state - TEMPERATURE_STEP)) COLD_TEMPERATURE)
       (\<lambda>v. no_options\<lparr>temperature_opt := Some v\<rparr>)
       ''Failed decreasing temperature for '' ax ks new s"
  by (induction ks arbitrary: new s)
     (simp_all add: Let_def split: prod.split sum.split option.split)

section \<open>The device client, case by case\<close>

lemma fetched_append: "fetched (xs @ ys) = fetched xs @ fetched ys"
  by (induction xs rule: fetched.induct) simp_all

lemma pushed_append: "pushed (xs @ ys) = pushed xs @ pushed ys"
  by (induction xs rule: pushed.induct) simp_all

lemma getKeyLight_cases:
  assumes "getKeyLight ax k s = (r, s1)"
  obtains (rejected) w where
      "r = Inl (''Failed to fetch Key Light state from '' @ lights_url k)"
      "s1 = s\<lparr>net := w, trace := trace s @ [GET (lights_url k) None]\<rparr>"
      "axios_get ax (lights_url k) (net s) = (None, w)"
    | (no_light) w where
      "r = Inr None"
      "s1 = s\<lparr>net := w, trace := trace s @ [GET (lights_url k) (Some [])]\<rparr>"
      "axios_get ax (lights_url k) (net s) = (Some [], w)"
    | (state) w l others where
      "r = Inr (Some l)"
      "s1 = s\<lparr>net := w, trace := trace s @ [GET (lights_url k) (Some (l # others))]\<rparr>"
      "axios_get ax (lights_url k) (net s) = (Some (l # others), w)"
  using assms
  by (auto simp: getKeyLight_def Let_def split: prod.splits option.splits list.splits)

lemma updateKeyLight_cases:
  assumes "updateKeyLight ax k opts s = (r, s1)"
  obtains (refused) w where
      "r = Inl (''Failed to update Key Light state at '' @ lights_url k)"
      "s1 = s\<lparr>net := w, trace := trace s @ [PUT (lights_url k) opts False]\<rparr>"
      "axios_put ax (lights_url k) opts (net s) = (False, w)"
    | (applied) w where
      "r = Inr ()"
      "s1 = s\<lparr>net := w, trace := trace s @ [PUT (lights_url k) opts True]\<rparr>"
      "axios_put ax (lights_url k) opts (net s) = (True, w)"
  using assms
  by (auto simp: updateKeyLight_def Let_def split: prod.splits bool.splits)

lemma control_loop_trace:
  assumes "control_loop f field msg ax ks new s = (r, s')"
  shows "\<exists>added. trace s' = trace s @ added \<and> keyLights s' = keyLights s \<and>
           pushed added = map (\<lambda>st. field (f st)) (fetched added) \<and>
           (\<forall>v. r = Inr v \<longrightarrow>
              length (fetched added) = length ks \<and>
              v = (if ks = [] then new else Some (f (last (fetched added)))))"
  using assms
proof (induction ks arbitrary: new s)
  case Nil
  then show ?case by auto
next
  case (Cons k rest)
  let ?u = "lights_url k"
  obtain r1 s1 where g: "getKeyLight ax k s = (r1, s1)"
    by (cases "getKeyLight ax k s")
  from g show ?case
  proof (cases rule: getKeyLight_cases)
    case (rejected w)
    from Cons.prems g rejected(1) have rs: "r = Inl (msg @ ip k)" "s' = s1"
      by simp_all
    show ?thesis
      by (rule exI [of _ "[GET ?u None]"]) (simp add: rs rejected(2))
  next
    case (no_light w)
    from Cons.prems g no_light(1) have rs: "r = Inl (msg @ ip k)" "s' = s1"
      by simp_all
    show ?thesis
      by (rule exI [of _ "[GET ?u (Some [])]"]) (simp add: rs no_light(2))
  next
    case (state w l others)
    obtain r2 s2 where u: "updateKeyLight ax k (field (f l)) s1 = (r2, s2)"
      by (cases "updateKeyLight ax k (field (f l)) s1")
    from u show ?thesis
    proof (cases rule: updateKeyLight_cases)
      case (refused w2)
      from Cons.prems g u state(1) refused(1) have rs: "r = Inl (msg @ ip k)" "s' = s2"
        by simp_all
      show ?thesis
        by (rule exI [of _ "[GET ?u (Some (l # others)), PUT ?u (field (f l)) False]"])
           (simp add: rs refused(2) state(2))
    next
      case (applied w2)
      from Cons.prems g u state(1) applied(1)
      have rec: "control_loop f field msg ax rest (Some (f l)) s2 = (r, s')"
        by simp
      from Cons.IH [OF rec] obtain added where
        a1: "trace s' = trace s2 @ added" and a2: "keyLights s' = keyLights s2"
        and a3: "pushed added = map (\<lambda>st. field (f st)) (fetched added)"
        and a4: "\<forall>v. r = Inr v \<longrightarrow> length (fetched added) = length rest \<and>
              v = (if rest = [] then Some (f l) else Some (f (last (fetched added))))"
        by (elim exE conjE)
      let ?new = "[GET ?u (Some (l # others)), PUT ?u (field (f l)) True] @ added"
      show ?thesis
      proof (intro exI [of _ ?new] conjI allI impI)
        show "trace s' = trace s @ ?new"
          using a1 applied(2) state(2) by simp
        show "keyLights s' = keyLights s"
          using a2 applied(2) state(2) by simp
        show "pushed ?new = map (\<lambda>st. field (f st)) (fetched ?new)"
          using a3 by simp
      next
        fix v assume "r = Inr v"
        with a4 have len: "length (fetched added) = length rest"
          and v: "v = (if rest = [] then Some (f l) else Some (f (last (fetched added))))"
          by simp_all
        show "length (fetched ?new) = length (k # rest)"
          using len by simp
        show "v = (if k # rest = [] then new else Some (f (last (fetched ?new))))"
          using len v by (cases rest) auto
      qed
    qed
  qed
qed


lemma control_loop_failure:
  assumes "control_loop f field msg ax ks new s = (Inl e, s')"
  shows "\<exists>k \<in> set ks. \<exists>before x. e = msg @ ip k \<and> trace s' = trace s @ before @ [x] \<and>
           failure_at (lights_url k) x"
  using assms
proof (induction ks arbitrary: new s)
  case Nil
  then show ?case by simp
next
  case (Cons k rest)
  let ?u = "lights_url k"
  obtain r1 s1 where g: "getKeyLight ax k s = (r1, s1)"
    by (cases "getKeyLight ax k s")
  from g show ?case
  proof (cases rule: getKeyLight_cases)
    case (rejected w)
    from Cons.prems g rejected(1) have "e = msg @ ip k" "s' = s1"
      by simp_all
    then have "e = msg @ ip k \<and> trace s' = trace s @ [] @ [GET ?u None] \<and>
                 failure_at ?u (GET ?u None)"
      by (simp add: rejected(2))
    then show ?thesis
      by (intro bexI [of _ k] exI [of _ "[]"] exI [of _ "GET ?u None"]) simp_all
  next
    case (no_light w)
    from Cons.prems g no_light(1) have "e = msg @ ip k" "s' = s1"
      by simp_all
    then have "e = msg @ ip k \<and> trace s' = trace s @ [] @ [GET ?u (Some [])] \<and>
                 failure_at ?u (GET ?u (Some []))"
      by (simp add: no_light(2))
    then show ?thesis
      by (intro bexI [of _ k] exI [of _ "[]"] exI [of _ "GET ?u (Some [])"]) simp_all
  next
    case (state w l others)
    let ?get = "GET ?u (Some (l # others))"
    obtain r2 s2 where u: "updateKeyLight ax k (field (f l)) s1 = (r2, s2)"
      by (cases "updateKeyLight ax k (field (f l)) s1")
    from u show ?thesis
    proof (cases rule: updateKeyLight_cases)
      case (refused w2)
      from Cons.prems g u state(1) refused(1) have "e = msg @ ip k" "s' = s2"
        by simp_all
      then have "e = msg @ ip k \<and>
                   trace s' = trace s @ [?get] @ [PUT ?u (field (f l)) False] \<and>
                   failure_at ?u (PUT ?u (field (f l)) False)"
        by (simp add: refused(2) state(2))
      then show ?thesis
        by (intro bexI [of _ k] exI [of _ "[?get]"]
              exI [of _ "PUT ?u (field (f l)) False"]) simp_all
    next
      case (applied w2)
      from Cons.prems g u state(1) applied(1)
      have "control_loop f field msg ax rest (Some (f l)) s2 = (Inl e, s')"
        by simp
      from Cons.IH [OF this] obtain k' before x where
        k': "k' \<in> set rest" "e = msg @ ip k'" "trace s' = trace s2 @ before @ [x]"
            "failure_at (lights_url k') x"
        by blast
      have "trace s' = trace s @ ([?get, PUT ?u (field (f l)) True] @ before) @ [x]"
        using k'(3) applied(2) state(2) by simp
      with k'(1,2,4) show ?thesis
        by (intro bexI [of _ k'] exI [of _ "[?get, PUT ?u (field (f l)) True] @ before"]
              exI [of _ x]) simp_all
    qed
  qed
qed

section \<open>What a run adds to the trace\<close>

lemma control_loop_exchanges:
  fixes f field msg ax ks new
  defines "run \<equiv> control_loop f field msg ax ks new"
  shows "trace (snd (run s)) = trace s @ exchanges_of run s"
    and "pushed (exchanges_of run s) = map (\<lambda>st. field (f st)) (fetched (exchanges_of run s))"
    and "fst (run s) = Inr v \<Longrightarrow> ks \<noteq> [] \<Longrightarrow>
           fetched (exchanges_of run s) \<noteq> [] \<and> v = Some (f (last (fetched (exchanges_of run s))))"
    and "fst (run s) = Inl e \<Longrightarrow>
           \<exists>k \<in> set ks. e = msg @ ip k \<and> exchanges_of run s \<noteq> [] \<and>
              failure_at (lights_url k) (last (exchanges_of run s))"
proof -
  obtain r s' where rs: "run s = (r, s')"
    by (cases "run s")
  then have loop: "control_loop f field msg ax ks new s = (r, s')"
    by (simp add: run_def)
  from control_loop_trace [OF loop] obtain added where
    a1: "trace s' = trace s @ added"
    and a3: "pushed added = map (\<lambda>st. field (f st)) (fetched added)"
    and a4: "\<forall>v. r = Inr v \<longrightarrow> length (fetched added) = length ks \<and>
              v = (if ks = [] then new else Some (f (last (fetched added))))"
    by (elim exE conjE)
  have ex: "exchanges_of run s = added"
    by (simp add: exchanges_of_def rs a1)
  show "trace (snd (run s)) = trace s @ exchanges_of run s"
    by (simp add: ex rs a1)
  show "pushed (exchanges_of run s) = map (\<lambda>st. field (f st)) (fetched (exchanges_of run s))"
    by (simp add: ex a3)
  show "fetched (exchanges_of run s) \<noteq> [] \<and> v = Some (f (last (fetched (exchanges_of run s))))"
    if "fst (run s) = Inr v" "ks \<noteq> []"
  proof -
    from that rs have "r = Inr v" by simp
    with a4 that(2) have "length (fetched added) = length ks"
      and "v = Some (f (last (fetched added)))" by simp_all
    with that(2) show ?thesis by (auto simp: ex)
  qed
  show "\<exists>k \<in> set ks. e = msg @ ip k \<and> exchanges_of run s \<noteq> [] \<and>
              failure_at (lights_url k) (last (exchanges_of run s))"
    if "fst (run s) = Inl e"
  proof -
    from that rs loop have "control_loop f field msg ax ks new s = (Inl e, s')" by simp
    from control_loop_failure [OF this] obtain k before x where
      k: "k \<in> set ks" "e = msg @ ip k" "trace s' = trace s @ before @ [x]"
         "failure_at (lights_url k) x"
      by blast
    from k(3) a1 have "added = before @ [x]" by simp
    with k(1,2,4) show ?thesis
      by (intro bexI [of _ k]) (simp_all add: ex)
  qed
qed

lemma control_loop_first_fails:
  fixes f field msg ax k rest new
  defines "run \<equiv> control_loop f field msg ax (k # rest) new"
  assumes "(\<exists>e. fst (getKeyLight ax k s) = Inl e) \<or>
           (\<exists>st s1 e. getKeyLight ax k s = (Inr (Some st), s1) \<and>
              fst (updateKeyLight ax k (field (f st)) s1) = Inl e)"
  shows "fst (run s) = Inl (msg @ ip k) \<and> single_attempt (lights_url k) (exchanges_of run s)"
  using assms(2)
proof (elim disjE exE conjE)
  fix e assume e: "fst (getKeyLight ax k s) = Inl e"
  obtain r1 s1 where g: "getKeyLight ax k s = (r1, s1)"
    by (cases "getKeyLight ax k s")
  from g show ?thesis
  proof (cases rule: getKeyLight_cases)
    case (rejected w)
    with g show ?thesis by (simp add: run_def exchanges_of_def)
  next
    case (no_light w)
    with g e show ?thesis by simp
  next
    case (state w l others)
    with g e show ?thesis by simp
  qed
next
  fix st s1 e
  assume g: "getKeyLight ax k s = (Inr (Some st), s1)"
    and refused: "fst (updateKeyLight ax k (field (f st)) s1) = Inl e"
  obtain r2 s2 where u: "updateKeyLight ax k (field (f st)) s1 = (r2, s2)"
    by (cases "updateKeyLight ax k (field (f st)) s1")
  with refused have r2: "r2 = Inl e"
    by simp
  from g have s1: "\<exists>r. trace s1 = trace s @ [GET (lights_url k) r]"
    by (cases rule: getKeyLight_cases) simp_all
  from u have s2: "trace s2 = trace s1 @ [PUT (lights_url k) (field (f st)) False]"
    by (cases rule: updateKeyLight_cases) (simp_all add: r2)
  from s1 s2 g u r2 show ?thesis
    by (auto simp: run_def exchanges_of_def)
qed

section \<open>The operations as runs of the common loop\<close>

lemma show_9123: "show_nat 9123 = ''9123''"
  by (simp add: show_nat.simps)

lemma desk_url: "lights_url desk = ''http://192.168.1.20:9123/elgato/lights''"
  by (simp add: lights_url_def desk_def show_9123)

lemma desk_ip: "ip desk = ''192.168.1.20''"
  by (simp add: desk_def)

lemma exchanges_of_cong: "run s = run' s \<Longrightarrow> exchanges_of run s = exchanges_of run' s"
  by (simp add: exchanges_of_def)

lemma toggle_control:
  "toggle ax s =
     control_loop (\<lambda>state. \<not> on state) (\<lambda>v. no_options\<lparr>on_opt := Some v\<rparr>)
       ''Failed toggling Key Light at '' ax (keyLights s) None s"
  by (simp add: toggle_def toggle_loop_control)

lemma increaseBrightness_control:
  "increaseBrightness ax s =
     control_loop (\<lambda>state. min (brightness state + 5) 100)
       (\<lambda>v. no_options\<lparr>brightness_opt := Some v\<rparr>)
       ''Failed increasing brightness for '' ax (keyLights s) None s"
  by (simp add: increaseBrightness_def increaseBrightness_loop_control)

lemma decreaseBrightness_control:
  "decreaseBrightness ax s =
     control_loop (\<lambda>state. max (brightness state - 5) 0)
       (\<lambda>v. no_options\<lparr>brightness_opt := Some v\<rparr>)
       ''Failed decreasing brightness for '' ax (keyLights s) None s"
  by (simp add: decreaseBrightness_def decreaseBrightness_loop_control)

lemma increaseTemperature_control:
  "increaseTemperature ax s =
     control_loop (\<lambda>state. min (double (temperature state + TEMPERATURE_STEP)) WARM_TEMPERATURE)
       (\<lambda>v. no_options\<lparr>temperature_opt := Some v\<rparr>)
       ''Failed increasing temperature for '' ax (keyLights s) None s"
  by (simp add: increaseTemperature_def increaseTemperature_loop_control)

lemma decreaseTemperature_control:
  "decreaseTemperature ax s =
     control_loop (\<lambda>state. max (double (temperature state - TEMPERATURE_STEP)) COLD_TEMPERATURE)
       (\<lambda>v. no_options\<lparr>temperature_opt := Some v\<rparr>)
       ''Failed decreasing temperature for '' ax (keyLights s) None s"
  by (simp add: decreaseTemperature_def decreaseTemperature_loop_control)

text \<open>Facts about any operation that is the common loop run over the registry.\<close>

lemma operation_first_fails:
  assumes run: "\<And>s. run s = control_loop f field msg ax (keyLights s) None s"
      and registry: "keyLights s = k # rest"
      and failing: "(\<exists>e. fst (getKeyLight ax k s) = Inl e) \<or>
           (\<exists>st s1 e. getKeyLight ax k s = (Inr (Some st), s1) \<and>
              fst (updateKeyLight ax k (field (f st)) s1) = Inl e)"
  shows "fst (run s) = Inl (msg @ ip k) \<and> single_attempt (lights_url k) (exchanges_of run s)"
proof -
  have "run s = control_loop f field msg ax (k # rest) None s"
    by (simp add: run registry)
  then show ?thesis
    using control_loop_first_fails [where f = f and field = field, OF failing, of msg rest None]
    by (simp add: exchanges_of_def)
qed

lemma operation_failure:
  assumes run: "\<And>s. run s = control_loop f field msg ax (keyLights s) None s"
      and failed: "fst (run s) = Inl e"
  shows "\<exists>k \<in> set (keyLights s). e = msg @ ip k \<and> exchanges_of run s \<noteq> [] \<and>
           failure_at (lights_url k) (last (exchanges_of run s))"
proof -
  have eq: "run s = control_loop f field msg ax (keyLights s) None s"
    by (rule run)
  from failed have "fst (control_loop f field msg ax (keyLights s) None s) = Inl e"
    by (simp add: eq)
  from control_loop_exchanges(4) [OF this] show ?thesis
    by (simp add: exchanges_of_def eq)
qed

lemma operation_pushes:
  assumes run: "\<And>s. run s = control_loop f field msg ax (keyLights s) None s"
  shows "pushed (exchanges_of run s) = map (\<lambda>st. field (f st)) (fetched (exchanges_of run s))"
    and "fst (run s) = Inr (Some v) \<Longrightarrow>
           pushed (exchanges_of run s) \<noteq> [] \<and> last (pushed (exchanges_of run s)) = field v"
proof -
  let ?loop = "control_loop f field msg ax (keyLights s) None"
  have eq: "run s = ?loop s"
    by (rule run)
  have ex: "exchanges_of run s = exchanges_of ?loop s"
    by (simp add: exchanges_of_def eq)
  show p: "pushed (exchanges_of run s) = map (\<lambda>st. field (f st)) (fetched (exchanges_of run s))"
    unfolding ex by (rule control_loop_exchanges(2))
  show "pushed (exchanges_of run s) \<noteq> [] \<and> last (pushed (exchanges_of run s)) = field v"
    if "fst (run s) = Inr (Some v)"
  proof -
    from that have r: "fst (?loop s) = Inr (Some v)"
      by (simp add: eq)
    then have "keyLights s \<noteq> []"
      by auto
    from control_loop_exchanges(3) [OF r this]
    have "fetched (exchanges_of ?loop s) \<noteq> []"
      and "v = f (last (fetched (exchanges_of ?loop s)))"
      by simp_all
    then show ?thesis
      unfolding p unfolding ex by (simp add: last_map)
  qed
qed

section \<open>The empty registry\<close>

text \<open>
  C10. With an empty registry each of the five control operations returns normally, its
  result is the undefined value, and the state is untouched: no fetch and no push is
  added to the trace, and the world behind the network is the one it started with.
\<close>

theorem empty_registry_returns_undefined:
  "keyLights s = [] \<longrightarrow>
     toggle ax s = (Inr None, s) \<and>
     increaseBrightness ax s = (Inr None, s) \<and>
     decreaseBrightness ax s = (Inr None, s) \<and>
     increaseTemperature ax s = (Inr None, s) \<and>
     decreaseTemperature ax s = (Inr None, s)"
  by (simp add: toggle_def increaseBrightness_def decreaseBrightness_def
      increaseTemperature_def decreaseTemperature_def)

theorem empty_registry_witness:
  "keyLights no_lights = [] \<and>
     toggle device_axios no_lights = (Inr None, no_lights) \<and>
     increaseBrightness device_axios no_lights = (Inr None, no_lights) \<and>
     decreaseBrightness device_axios no_lights = (Inr None, no_lights) \<and>
     increaseTemperature device_axios no_lights = (Inr None, no_lights) \<and>
     decreaseTemperature device_axios no_lights = (Inr None, no_lights)"
  using empty_registry_returns_undefined [of no_lights device_axios]
  by (simp add: no_lights_def)

section \<open>Abort at the first failing endpoint\<close>

text \<open>
  C3. In a registry of at least two endpoints, when the fetch for the first endpoint
  fails, or its fetch succeeds and the push the operation then makes fails, the control
  operation (each of the five) fails with its message naming the host of that first
  endpoint, and the calls it made are that endpoint's fetch, with its push in the second
  case, and nothing else: no fetch and no push is made for any later endpoint.
\<close>

theorem abort_at_first_failing_endpoint:
  assumes registry: "keyLights s = k1 # k2 # rest"
  shows
    "((\<exists>e. fst (getKeyLight ax k1 s) = Inl e) \<or>
      (\<exists>st s1 e. getKeyLight ax k1 s = (Inr (Some st), s1) \<and>
         fst (updateKeyLight ax k1 (no_options\<lparr>on_opt := Some (\<not> on st)\<rparr>) s1) = Inl e) \<longrightarrow>
      fst (toggle ax s) = Inl (''Failed toggling Key Light at '' @ ip k1) \<and>
      single_attempt (lights_url k1) (exchanges_of (toggle ax) s)) \<and>
     ((\<exists>e. fst (getKeyLight ax k1 s) = Inl e) \<or>
      (\<exists>st s1 e. getKeyLight ax k1 s = (Inr (Some st), s1) \<and>
         fst (updateKeyLight ax k1
                (no_options\<lparr>brightness_opt := Some (min (brightness st + 5) 100)\<rparr>) s1) = Inl e) \<longrightarrow>
      fst (increaseBrightness ax s) = Inl (''Failed increasing brightness for '' @ ip k1) \<and>
      single_attempt (lights_url k1) (exchanges_of (increaseBrightness ax) s)) \<and>
     ((\<exists>e. fst (getKeyLight ax k1 s) = Inl e) \<or>
      (\<exists>st s1 e. getKeyLight ax k1 s = (Inr (Some st), s1) \<and>
         fst (updateKeyLight ax k1
                (no_options\<lparr>brightness_opt := Some (max (brightness st - 5) 0)\<rparr>) s1) = Inl e) \<longrightarrow>
      fst (decreaseBrightness ax s) = Inl (''Failed decreasing brightness for '' @ ip k1) \<and>
      single_attempt (lights_url k1) (exchanges_of (decreaseBrightness ax) s)) \<and>
     ((\<exists>e. fst (getKeyLight ax k1 s) = Inl e) \<or>
      (\<exists>st s1 e. getKeyLight ax k1 s = (Inr (Some st), s1) \<and>
         fst (updateKeyLight ax k1
                (no_options\<lparr>temperature_opt :=
                   Some (min (double (temperature st + TEMPERATURE_STEP)) WARM_TEMPERATURE)\<rparr>) s1) = Inl e) \<longrightarrow>
      fst (increaseTemperature ax s) = Inl (''Failed increasing temperature for '' @ ip k1) \<and>
      single_attempt (lights_url k1) (exchanges_of (increaseTemperature ax) s)) \<and>
     ((\<exists>e. fst (getKeyLight ax k1 s) = Inl e) \<or>
      (\<exists>st s1 e. getKeyLight ax k1 s = (Inr (Some st), s1) \<and>
         fst (updateKeyLight ax k1
                (no_options\<lparr>temperature_opt :=
                   Some (max (double (temperature st - TEMPERATURE_STEP)) COLD_TEMPERATURE)\<rparr>) s1) = Inl e) \<longrightarrow>
      fst (decreaseTemperature ax s) = Inl (''Failed decreasing temperature for '' @ ip k1) \<and>
      single_attempt (lights_url k1) (exchanges_of (decreaseTemperature ax) s))"
proof (intro conjI impI)
  note first = operation_first_fails [OF _ registry]
  show "fst (toggle ax s) = Inl (''Failed toggling Key Light at '' @ ip k1)"
    and "single_attempt (lights_url k1) (exchanges_of (toggle ax) s)"
    if "(\<exists>e. fst (getKeyLight ax k1 s) = Inl e) \<or>
      (\<exists>st s1 e. getKeyLight ax k1 s = (Inr (Some st), s1) \<and>
         fst (updateKeyLight ax k1 (no_options\<lparr>on_opt := Some (\<not> on st)\<rparr>) s1) = Inl e)"
    using first [of "toggle ax", OF toggle_control that] by simp_all
  show "fst (increaseBrightness ax s) = Inl (''Failed increasing brightness for '' @ ip k1)"
    and "single_attempt (lights_url k1) (exchanges_of (increaseBrightness ax) s)"
    if "(\<exists>e. fst (getKeyLight ax k1 s) = Inl e) \<or>
      (\<exists>st s1 e. getKeyLight ax k1 s = (Inr (Some st), s1) \<and>
         fst (updateKeyLight ax k1
                (no_options\<lparr>brightness_opt := Some (min (brightness st + 5) 100)\<rparr>) s1) = Inl e)"
    using first [of "increaseBrightness ax", OF increaseBrightness_control that] by simp_all
  show "fst (decreaseBrightness ax s) = Inl (''Failed decreasing brightness for '' @ ip k1)"
    and "single_attempt (lights_url k1) (exchanges_of (decreaseBrightness ax) s)"
    if "(\<exists>e. fst (getKeyLight ax k1 s) = Inl e) \<or>
      (\<exists>st s1 e. getKeyLight ax k1 s = (Inr (Some st), s1) \<and>
         fst (updateKeyLight ax k1
                (no_options\<lparr>brightness_opt := Some (max (brightness st - 5) 0)\<rparr>) s1) = Inl e)"
    using first [of "decreaseBrightness ax", OF decreaseBrightness_control that] by simp_all
  show "fst (increaseTemperature ax s) = Inl (''Failed increasing temperature for '' @ ip k1)"
    and "single_attempt (lights_url k1) (exchanges_of (increaseTemperature ax) s)"
    if "(\<exists>e. fst (getKeyLight ax k1 s) = Inl e) \<or>
      (\<exists>st s1 e. getKeyLight ax k1 s = (Inr (Some st), s1) \<and>
         fst (updateKeyLight ax k1
                (no_options\<lparr>temperature_opt :=
                   Some (min (double (temperature st + TEMPERATURE_STEP)) WARM_TEMPERATURE)\<rparr>) s1) = Inl e)"
    using first [of "increaseTemperature ax", OF increaseTemperature_control that] by simp_all
  show "fst (decreaseTemperature ax s) = Inl (''Failed decreasing temperature for '' @ ip k1)"
    and "single_attempt (lights_url k1) (exchanges_of (decreaseTemperature ax) s)"
    if "(\<exists>e. fst (getKeyLight ax k1 s) = Inl e) \<or>
      (\<exists>st s1 e. getKeyLight ax k1 s = (Inr (Some st), s1) \<and>
         fst (updateKeyLight ax k1
                (no_options\<lparr>temperature_opt :=
                   Some (max (double (temperature st - TEMPERATURE_STEP)) COLD_TEMPERATURE)\<rparr>) s1) = Inl e)"
    using first [of "decreaseTemperature ax", OF decreaseTemperature_control that] by simp_all
qed

lemma unplugged_fetch_fails:
  "\<exists>e. fst (getKeyLight device_axios desk unplugged) = Inl e"
  by (simp add: getKeyLight_def device_axios_def unplugged_def Let_def)

lemma read_only_push_fails:
  "\<exists>st s1 e. getKeyLight read_only_axios desk desk_only = (Inr (Some st), s1) \<and>
      fst (updateKeyLight read_only_axios desk
             (no_options\<lparr>temperature_opt :=
                Some (max (double (temperature st - TEMPERATURE_STEP)) COLD_TEMPERATURE)\<rparr>) s1) = Inl e"
  by (simp add: getKeyLight_def updateKeyLight_def read_only_axios_def device_axios_def
      desk_only_def Let_def)

theorem abort_at_first_failing_endpoint_witness:
  "keyLights unplugged = desk # shelf # [] \<and>
   fst (toggle device_axios unplugged) = Inl ''Failed toggling Key Light at 192.168.1.20'' \<and>
   exchanges_of (toggle device_axios) unplugged =
     [GET ''http://192.168.1.20:9123/elgato/lights'' None] \<and>
   keyLights desk_only = desk # shelf # [] \<and>
   fst (decreaseTemperature read_only_axios desk_only) =
     Inl ''Failed decreasing temperature for 192.168.1.20'' \<and>
   single_attempt ''http://192.168.1.20:9123/elgato/lights''
     (exchanges_of (decreaseTemperature read_only_axios) desk_only)"
proof -
  have r1: "keyLights unplugged = desk # shelf # []"
    by (simp add: unplugged_def)
  have r2: "keyLights desk_only = desk # shelf # []"
    by (simp add: desk_only_def)
  have x: "exchanges_of (toggle device_axios) unplugged =
     [GET ''http://192.168.1.20:9123/elgato/lights'' None]"
    by (simp add: exchanges_of_def toggle_def unplugged_def getKeyLight_def device_axios_def
        desk_url Let_def)
  from abort_at_first_failing_endpoint [OF r1, of device_axios]
    abort_at_first_failing_endpoint [OF r2, of read_only_axios]
    unplugged_fetch_fails read_only_push_fails
  show ?thesis
    using r1 r2 x by (simp add: desk_ip desk_url)
qed

section \<open>What the surfaced error carries\<close>

text \<open>
  C8, as amended. When a control operation fails, the error surfaced is the operation's
  fixed message followed by the host address of an endpoint of the registry, and the last
  call made is a failed exchange with that endpoint (a rejected fetch, a fetch answered
  without a light, or a rejected push). The error is that text and nothing more: it
  holds neither the port nor the phase that failed.
\<close>

theorem failure_message_names_host:
  "(fst (toggle ax s) = Inl e \<longrightarrow>
      (\<exists>k \<in> set (keyLights s). e = ''Failed toggling Key Light at '' @ ip k \<and>
         exchanges_of (toggle ax) s \<noteq> [] \<and>
         failure_at (lights_url k) (last (exchanges_of (toggle ax) s)))) \<and>
   (fst (increaseBrightness ax s) = Inl e \<longrightarrow>
      (\<exists>k \<in> set (keyLights s). e = ''Failed increasing brightness for '' @ ip k \<and>
         exchanges_of (increaseBrightness ax) s \<noteq> [] \<and>
         failure_at (lights_url k) (last (exchanges_of (increaseBrightness ax) s)))) \<and>
   (fst (decreaseBrightness ax s) = Inl e \<longrightarrow>
      (\<exists>k \<in> set (keyLights s). e = ''Failed decreasing brightness for '' @ ip k \<and>
         exchanges_of (decreaseBrightness ax) s \<noteq> [] \<and>
         failure_at (lights_url k) (last (exchanges_of (decreaseBrightness ax) s)))) \<and>
   (fst (increaseTemperature ax s) = Inl e \<longrightarrow>
      (\<exists>k \<in> set (keyLights s). e = ''Failed increasing temperature for '' @ ip k \<and>
         exchanges_of (increaseTemperature ax) s \<noteq> [] \<and>
         failure_at (lights_url k) (last (exchanges_of (increaseTemperature ax) s)))) \<and>
   (fst (decreaseTemperature ax s) = Inl e \<longrightarrow>
      (\<exists>k \<in> set (keyLights s). e = ''Failed decreasing temperature for '' @ ip k \<and>
         exchanges_of (decreaseTemperature ax) s \<noteq> [] \<and>
         failure_at (lights_url k) (last (exchanges_of (decreaseTemperature ax) s))))"
proof (intro conjI impI)
  assume "fst (toggle ax s) = Inl e"
  from operation_failure [of "toggle ax", OF toggle_control this]
  show "\<exists>k \<in> set (keyLights s). e = ''Failed toggling Key Light at '' @ ip k \<and>
         exchanges_of (toggle ax) s \<noteq> [] \<and>
         failure_at (lights_url k) (last (exchanges_of (toggle ax) s))" .
next
  assume "fst (increaseBrightness ax s) = Inl e"
  from operation_failure [of "increaseBrightness ax", OF increaseBrightness_control this]
  show "\<exists>k \<in> set (keyLights s). e = ''Failed increasing brightness for '' @ ip k \<and>
         exchanges_of (increaseBrightness ax) s \<noteq> [] \<and>
         failure_at (lights_url k) (last (exchanges_of (increaseBrightness ax) s))" .
next
  assume "fst (decreaseBrightness ax s) = Inl e"
  from operation_failure [of "decreaseBrightness ax", OF decreaseBrightness_control this]
  show "\<exists>k \<in> set (keyLights s). e = ''Failed decreasing brightness for '' @ ip k \<and>
         exchanges_of (decreaseBrightness ax) s \<noteq> [] \<and>
         failure_at (lights_url k) (last (exchanges_of (decreaseBrightness ax) s))" .
next
  assume "fst (increaseTemperature ax s) = Inl e"
  from operation_failure [of "increaseTemperature ax", OF increaseTemperature_control this]
  show "\<exists>k \<in> set (keyLights s). e = ''Failed increasing temperature for '' @ ip k \<and>
         exchanges_of (increaseTemperature ax) s \<noteq> [] \<and>
         failure_at (lights_url k) (last (exchanges_of (increaseTemperature ax) s))" .
next
  assume "fst (decreaseTemperature ax s) = Inl e"
  from operation_failure [of "decreaseTemperature ax", OF decreaseTemperature_control this]
  show "\<exists>k \<in> set (keyLights s). e = ''Failed decreasing temperature for '' @ ip k \<and>
         exchanges_of (decreaseTemperature ax) s \<noteq> [] \<and>
         failure_at (lights_url k) (last (exchanges_of (decreaseTemperature ax) s))" .
qed

lemma toggle_unplugged:
  "fst (toggle device_axios unplugged) = Inl ''Failed toggling Key Light at 192.168.1.20''"
  "exchanges_of (toggle device_axios) unplugged =
     [GET ''http://192.168.1.20:9123/elgato/lights'' None]"
  by (simp_all add: exchanges_of_def toggle_def unplugged_def getKeyLight_def device_axios_def
      desk_url desk_ip Let_def)

lemma toggle_read_only:
  "fst (toggle read_only_axios desk_only) = Inl ''Failed toggling Key Light at 192.168.1.20''"
  "exchanges_of (toggle read_only_axios) desk_only =
     [GET ''http://192.168.1.20:9123/elgato/lights''
        (Some [\<lparr>on = True, brightness = 40, temperature = 200\<rparr>]),
      PUT ''http://192.168.1.20:9123/elgato/lights'' (no_options\<lparr>on_opt := Some False\<rparr>) False]"
  by (simp_all add: exchanges_of_def toggle_def desk_only_def getKeyLight_def updateKeyLight_def
      read_only_axios_def device_axios_def desk_url desk_ip Let_def)

theorem failure_message_names_host_witness:
  "fst (toggle device_axios unplugged) = Inl ''Failed toggling Key Light at 192.168.1.20'' \<and>
   (\<exists>k \<in> set (keyLights unplugged).
      ''Failed toggling Key Light at 192.168.1.20'' = ''Failed toggling Key Light at '' @ ip k \<and>
      exchanges_of (toggle device_axios) unplugged \<noteq> [] \<and>
      failure_at (lights_url k) (last (exchanges_of (toggle device_axios) unplugged)))"
  using failure_message_names_host
    [of device_axios unplugged "''Failed toggling Key Light at 192.168.1.20''"]
    toggle_unplugged(1)
  by simp

text \<open>
  The same endpoint failing in the fetch phase (the desk light unreachable) and in the
  push phase (the desk light answering but refusing the PUT) surfaces one and the same
  error: the phase cannot be read off it.
\<close>

theorem error_hides_phase_counterexample:
  "fst (toggle device_axios unplugged) = fst (toggle read_only_axios desk_only) \<and>
   fst (toggle device_axios unplugged) = Inl ''Failed toggling Key Light at 192.168.1.20'' \<and>
   exchanges_of (toggle device_axios) unplugged =
     [GET ''http://192.168.1.20:9123/elgato/lights'' None] \<and>
   fst (toggle read_only_axios desk_only) = Inl ''Failed toggling Key Light at 192.168.1.20'' \<and>
   exchanges_of (toggle read_only_axios) desk_only =
     [GET ''http://192.168.1.20:9123/elgato/lights''
        (Some [\<lparr>on = True, brightness = 40, temperature = 200\<rparr>]),
      PUT ''http://192.168.1.20:9123/elgato/lights'' (no_options\<lparr>on_opt := Some False\<rparr>) False]"
  using toggle_unplugged toggle_read_only by simp

section \<open>Brightness adjustments\<close>

text \<open>Evaluating the operations on the desk light alone.\<close>

lemma toggle_desk:
  "exchanges_of (toggle device_axios) (desk_light p b t) =
     [GET ''http://192.168.1.20:9123/elgato/lights''
        (Some [\<lparr>on = p, brightness = b, temperature = t\<rparr>]),
      PUT ''http://192.168.1.20:9123/elgato/lights'' (no_options\<lparr>on_opt := Some (\<not> p)\<rparr>) True]"
  "fst (toggle device_axios (desk_light p b t)) = Inr (Some (\<not> p))"
  by (simp_all add: exchanges_of_def toggle_def desk_light_def getKeyLight_def
      updateKeyLight_def device_axios_def desk_url Let_def)

lemma increaseBrightness_desk:
  "exchanges_of (increaseBrightness device_axios) (desk_light p b t) =
     [GET ''http://192.168.1.20:9123/elgato/lights''
        (Some [\<lparr>on = p, brightness = b, temperature = t\<rparr>]),
      PUT ''http://192.168.1.20:9123/elgato/lights''
        (no_options\<lparr>brightness_opt := Some (min (b + 5) 100)\<rparr>) True]"
  "fst (increaseBrightness device_axios (desk_light p b t)) = Inr (Some (min (b + 5) 100))"
  by (simp_all add: exchanges_of_def increaseBrightness_def desk_light_def getKeyLight_def
      updateKeyLight_def device_axios_def desk_url Let_def)

lemma decreaseBrightness_desk:
  "exchanges_of (decreaseBrightness device_axios) (desk_light p b t) =
     [GET ''http://192.168.1.20:9123/elgato/lights''
        (Some [\<lparr>on = p, brightness = b, temperature = t\<rparr>]),
      PUT ''http://192.168.1.20:9123/elgato/lights''
        (no_options\<lparr>brightness_opt := Some (max (b - 5) 0)\<rparr>) True]"
  "fst (decreaseBrightness device_axios (desk_light p b t)) = Inr (Some (max (b - 5) 0))"
  by (simp_all add: exchanges_of_def decreaseBrightness_def desk_light_def getKeyLight_def
      updateKeyLight_def device_axios_def desk_url Let_def)

lemma increaseTemperature_desk:
  "exchanges_of (increaseTemperature device_axios) (desk_light p b t) =
     [GET ''http://192.168.1.20:9123/elgato/lights''
        (Some [\<lparr>on = p, brightness = b, temperature = t\<rparr>]),
      PUT ''http://192.168.1.20:9123/elgato/lights''
        (no_options\<lparr>temperature_opt :=
           Some (min (double (t + TEMPERATURE_STEP)) WARM_TEMPERATURE)\<rparr>) True]"
  "fst (increaseTemperature device_axios (desk_light p b t)) =
     Inr (Some (min (double (t + TEMPERATURE_STEP)) WARM_TEMPERATURE))"
  by (simp_all add: exchanges_of_def increaseTemperature_def desk_light_def getKeyLight_def
      updateKeyLight_def device_axios_def desk_url Let_def)

lemma decreaseTemperature_desk:
  "exchanges_of (decreaseTemperature device_axios) (desk_light p b t) =
     [GET ''http://192.168.1.20:9123/elgato/lights''
        (Some [\<lparr>on = p, brightness = b, temperature = t\<rparr>]),
      PUT ''http://192.168.1.20:9123/elgato/lights''
        (no_options\<lparr>temperature_opt :=
           Some (max (double (t - TEMPERATURE_STEP)) COLD_TEMPERATURE)\<rparr>) True]"
  "fst (decreaseTemperature device_axios (desk_light p b t)) =
     Inr (Some (max (double (t - TEMPERATURE_STEP)) COLD_TEMPERATURE))"
  by (simp_all add: exchanges_of_def decreaseTemperature_def desk_light_def getKeyLight_def
      updateKeyLight_def device_axios_def desk_url Let_def)

lemma zip_map_self: "set (zip xs (map g xs)) = (\<lambda>x. (x, g x)) ` set xs"
  by (induction xs) auto

text \<open>
  C1, as amended. Every push of a brightness adjustment answers one fetched state and
  carries the brightness field alone. \<open>increaseBrightness\<close> pushes
  \<open>min (current + 5) 100\<close>: never more than 100, and at least 0 exactly when the
  current value is at least \<open>-5\<close>. \<open>decreaseBrightness\<close> pushes
  \<open>max (current - 5) 0\<close>: never less than 0, and at most 100 exactly when the current
  value is at most 105. So from a current value in \<open>[0,100]\<close> the value pushed lies in
  \<open>[0,100]\<close>; each operation clamps at one end only. The value returned is one of the
  values pushed.
\<close>

theorem brightness_adjustments_clamped:
  "length (pushed (exchanges_of (increaseBrightness ax) s)) =
     length (fetched (exchanges_of (increaseBrightness ax) s)) \<and>
   (\<forall>(st, opts) \<in> set (zip (fetched (exchanges_of (increaseBrightness ax) s))
                          (pushed (exchanges_of (increaseBrightness ax) s))).
      \<exists>v. opts = no_options\<lparr>brightness_opt := Some v\<rparr> \<and>
          v = min (brightness st + 5) 100 \<and> v \<le> 100 \<and>
          (0 \<le> v \<longleftrightarrow> - 5 \<le> brightness st) \<and>
          (0 \<le> brightness st \<and> brightness st \<le> 100 \<longrightarrow> 0 \<le> v \<and> v \<le> 100)) \<and>
   (\<forall>v. fst (increaseBrightness ax s) = Inr (Some v) \<longrightarrow>
      no_options\<lparr>brightness_opt := Some v\<rparr>
        \<in> set (pushed (exchanges_of (increaseBrightness ax) s))) \<and>
   length (pushed (exchanges_of (decreaseBrightness ax) s)) =
     length (fetched (exchanges_of (decreaseBrightness ax) s)) \<and>
   (\<forall>(st, opts) \<in> set (zip (fetched (exchanges_of (decreaseBrightness ax) s))
                          (pushed (exchanges_of (decreaseBrightness ax) s))).
      \<exists>v. opts = no_options\<lparr>brightness_opt := Some v\<rparr> \<and>
          v = max (brightness st - 5) 0 \<and> 0 \<le> v \<and>
          (v \<le> 100 \<longleftrightarrow> brightness st \<le> 105) \<and>
          (0 \<le> brightness st \<and> brightness st \<le> 100 \<longrightarrow> 0 \<le> v \<and> v \<le> 100)) \<and>
   (\<forall>v. fst (decreaseBrightness ax s) = Inr (Some v) \<longrightarrow>
      no_options\<lparr>brightness_opt := Some v\<rparr>
        \<in> set (pushed (exchanges_of (decreaseBrightness ax) s)))"
proof -
  note up = operation_pushes [of "increaseBrightness ax", OF increaseBrightness_control]
  note down = operation_pushes [of "decreaseBrightness ax", OF decreaseBrightness_control]
  have "length (pushed (exchanges_of (increaseBrightness ax) s)) =
     length (fetched (exchanges_of (increaseBrightness ax) s))"
    by (simp add: up(1))
  moreover have "\<forall>(st, opts) \<in> set (zip (fetched (exchanges_of (increaseBrightness ax) s))
                          (pushed (exchanges_of (increaseBrightness ax) s))).
      \<exists>v. opts = no_options\<lparr>brightness_opt := Some v\<rparr> \<and>
          v = min (brightness st + 5) 100 \<and> v \<le> 100 \<and>
          (0 \<le> v \<longleftrightarrow> - 5 \<le> brightness st) \<and>
          (0 \<le> brightness st \<and> brightness st \<le> 100 \<longrightarrow> 0 \<le> v \<and> v \<le> 100)"
    unfolding up(1) zip_map_self by auto
  moreover have "\<forall>v. fst (increaseBrightness ax s) = Inr (Some v) \<longrightarrow>
      no_options\<lparr>brightness_opt := Some v\<rparr>
        \<in> set (pushed (exchanges_of (increaseBrightness ax) s))"
    using up(2) last_in_set by metis
  moreover have "length (pushed (exchanges_of (decreaseBrightness ax) s)) =
     length (fetched (exchanges_of (decreaseBrightness ax) s))"
    by (simp add: down(1))
  moreover have "\<forall>(st, opts) \<in> set (zip (fetched (exchanges_of (decreaseBrightness ax) s))
                          (pushed (exchanges_of (decreaseBrightness ax) s))).
      \<exists>v. opts = no_options\<lparr>brightness_opt := Some v\<rparr> \<and>
          v = max (brightness st - 5) 0 \<and> 0 \<le> v \<and>
          (v \<le> 100 \<longleftrightarrow> brightness st \<le> 105) \<and>
          (0 \<le> brightness st \<and> brightness st \<le> 100 \<longrightarrow> 0 \<le> v \<and> v \<le> 100)"
    unfolding down(1) zip_map_self by auto
  moreover have "\<forall>v. fst (decreaseBrightness ax s) = Inr (Some v) \<longrightarrow>
      no_options\<lparr>brightness_opt := Some v\<rparr>
        \<in> set (pushed (exchanges_of (decreaseBrightness ax) s))"
    using down(2) last_in_set by metis
  ultimately show ?thesis by (intro conjI)
qed

theorem brightness_adjustments_clamped_witness:
  "fetched (exchanges_of (increaseBrightness device_axios) (desk_light True 98 200)) =
     [\<lparr>on = True, brightness = 98, temperature = 200\<rparr>] \<and>
   pushed (exchanges_of (increaseBrightness device_axios) (desk_light True 98 200)) =
     [no_options\<lparr>brightness_opt := Some 100\<rparr>] \<and>
   fst (increaseBrightness device_axios (desk_light True 98 200)) = Inr (Some 100) \<and>
   fetched (exchanges_of (decreaseBrightness device_axios) (desk_light True 3 200)) =
     [\<lparr>on = True, brightness = 3, temperature = 200\<rparr>] \<and>
   pushed (exchanges_of (decreaseBrightness device_axios) (desk_light True 3 200)) =
     [no_options\<lparr>brightness_opt := Some 0\<rparr>] \<and>
   fst (decreaseBrightness device_axios (desk_light True 3 200)) = Inr (Some 0)"
  using brightness_adjustments_clamped [of device_axios "desk_light True 98 200"]
    brightness_adjustments_clamped [of device_axios "desk_light True 3 200"]
  by (simp add: increaseBrightness_desk decreaseBrightness_desk)

text \<open>
  A light reporting a brightness of \<open>-50\<close> is pushed \<open>-45\<close> by
  \<open>increaseBrightness\<close>, and one reporting 250 is pushed 245 by
  \<open>decreaseBrightness\<close>: neither value is in \<open>[0,100]\<close>.
\<close>

theorem brightness_one_sided_counterexample:
  "pushed (exchanges_of (increaseBrightness device_axios) (desk_light True (- 50) 200)) =
     [no_options\<lparr>brightness_opt := Some (- 45)\<rparr>] \<and>
   fst (increaseBrightness device_axios (desk_light True (- 50) 200)) = Inr (Some (- 45)) \<and>
   \<not> (0 \<le> (- 45 :: rat)) \<and>
   pushed (exchanges_of (decreaseBrightness device_axios) (desk_light True 250 200)) =
     [no_options\<lparr>brightness_opt := Some 245\<rparr>] \<and>
   fst (decreaseBrightness device_axios (desk_light True 250 200)) = Inr (Some 245) \<and>
   \<not> ((245 :: rat) \<le> 100)"
  by (simp add: increaseBrightness_desk decreaseBrightness_desk)

section \<open>Temperature adjustments\<close>

subsection \<open>How far a double is from the exact value\<close>

lemma bit_length_le: "n < 2 ^ k \<Longrightarrow> bit_length n \<le> k"
proof (induction n arbitrary: k rule: bit_length.induct)
  case (1 n)
  show ?case
  proof (cases "n = 0")
    case True
    then show ?thesis by (simp add: bit_length.simps)
  next
    case False
    with "1.prems" obtain j where k: "k = Suc j"
      by (cases k) auto
    with "1.prems" have "n div 2 < 2 ^ j"
      by auto
    from "1.IH" [OF False this] False show ?thesis
      by (simp add: bit_length.simps [of n] k)
  qed
qed

lemma exponent_le: "\<bar>x\<bar> < 2 ^ Suc k \<Longrightarrow> exponent x \<le> int k"
proof (cases "1 \<le> \<bar>x\<bar>")
  case True
  assume "\<bar>x\<bar> < 2 ^ Suc k"
  then have "\<lfloor>\<bar>x\<bar>\<rfloor> < 2 ^ Suc k"
    by (simp add: floor_less_iff)
  then have "nat \<lfloor>\<bar>x\<bar>\<rfloor> < 2 ^ Suc k"
    by (simp add: nat_less_iff)
  then have "bit_length (nat \<lfloor>\<bar>x\<bar>\<rfloor>) \<le> Suc k"
    by (rule bit_length_le)
  with True show ?thesis by (simp add: exponent_def)
next
  case False
  then show ?thesis by (simp add: exponent_def)
qed

lemma round_half_even_error: "\<bar>of_int (round_half_even r) - r\<bar> \<le> 1 / 2"
proof -
  have "of_int \<lfloor>r\<rfloor> \<le> r" "r < of_int \<lfloor>r\<rfloor> + 1"
    by linarith+
  then show ?thesis
    by (auto simp: round_half_even_def)
qed

lemma double_error:
  "\<bar>double x - x\<bar> \<le> 2 powi max (exponent x - 52) (- 1074) / 2"
proof -
  let ?u = "2 powi max (exponent x - 52) (- 1074) :: rat"
  have u: "0 < ?u" by simp
  have "double x - x = ?u * (of_int (round_half_even (x / ?u)) - x / ?u)"
    using u by (simp add: double_def Let_def algebra_simps)
  then have "\<bar>double x - x\<bar> = ?u * \<bar>of_int (round_half_even (x / ?u)) - x / ?u\<bar>"
    using u by (simp add: abs_mult)
  also have "\<dots> \<le> ?u * (1 / 2)"
    using u round_half_even_error [of "x / ?u"] by (intro mult_left_mono) simp_all
  finally show ?thesis by simp
qed

lemma double_near:
  assumes "\<bar>x\<bar> < 512"
  shows "x - 1 / 35184372088832 \<le> double x" and "double x \<le> x + 1 / 35184372088832"
proof -
  from assms have "\<bar>x\<bar> < 2 ^ Suc 8" by simp
  then have "exponent x \<le> 8"
    using exponent_le [of x 8] by simp
  then have "max (exponent x - 52) (- 1074) \<le> - 44" by simp
  then have "(2::rat) powi max (exponent x - 52) (- 1074) \<le> 2 powi (- 44)"
    by (intro power_int_increasing) simp_all
  with double_error [of x] have "\<bar>double x - x\<bar> \<le> 1 / 35184372088832"
    by (simp add: power_int_minus field_simps)
  then show "x - 1 / 35184372088832 \<le> double x" and "double x \<le> x + 1 / 35184372088832"
    by linarith+
qed

subsection \<open>The step and some sums, evaluated\<close>

lemma floor_numeral_quotient:
  "\<lfloor>numeral a / numeral b :: rat\<rfloor> = numeral a div numeral b"
  using floor_divide_of_int_eq [of "numeral a" "numeral b", where ?'a = rat] by simp

lemma exponent_examples:
  "exponent 201 = 7" "exponent (201 / 20) = 3"
  "exponent (30976321187007693 / 281474976710656) = 6"
  "exponent (59123818858073293 / 281474976710656) = 7"
  "exponent (109761167168320307 / 281474976710656) = 8"
  by (simp_all add: exponent_def floor_numeral_quotient bit_length.simps)

lemma double_examples:
  "double 201 = 201"
  "double (201 / 20) = 2828823515942093 / 281474976710656"
  "double (30976321187007693 / 281474976710656) = 7744080296751923 / 70368744177664"
  "double (59123818858073293 / 281474976710656) = 3695238678629581 / 17592186044416"
  "double (109761167168320307 / 281474976710656) = 6860072948020019 / 17592186044416"
  by (simp_all add: double_def exponent_examples round_half_even_def Let_def
      floor_numeral_quotient)

lemma step_value: "TEMPERATURE_STEP = 2828823515942093 / 281474976710656"
  by (simp add: TEMPERATURE_STEP_def WARM_TEMPERATURE_def COLD_TEMPERATURE_def double_examples)

lemma rounded_examples:
  "double (100 + TEMPERATURE_STEP) = 7744080296751923 / 70368744177664"
  "double (200 + TEMPERATURE_STEP) = 3695238678629581 / 17592186044416"
  "double (400 - TEMPERATURE_STEP) = 6860072948020019 / 17592186044416"
  by (simp_all add: step_value double_examples)

subsection \<open>The sums of an adjustment inside the domain\<close>

lemma increase_rounded:
  assumes "143 \<le> t" "t \<le> 344"
  shows "t + 1003 / 100 < double (t + TEMPERATURE_STEP)"
    and "double (t + TEMPERATURE_STEP) < t + 1007 / 100"
proof -
  have "\<bar>t + TEMPERATURE_STEP\<bar> < 512"
    using assms by (simp add: step_value abs_if)
  from double_near [OF this]
  show "t + 1003 / 100 < double (t + TEMPERATURE_STEP)"
    and "double (t + TEMPERATURE_STEP) < t + 1007 / 100"
    unfolding step_value by linarith+
qed

lemma decrease_rounded:
  assumes "143 \<le> t" "t \<le> 344"
  shows "t - 1007 / 100 < double (t - TEMPERATURE_STEP)"
    and "double (t - TEMPERATURE_STEP) < t - 1003 / 100"
proof -
  have "\<bar>t - TEMPERATURE_STEP\<bar> < 512"
    using assms by (simp add: step_value abs_if)
  from double_near [OF this]
  show "t - 1007 / 100 < double (t - TEMPERATURE_STEP)"
    and "double (t - TEMPERATURE_STEP) < t - 1003 / 100"
    unfolding step_value by linarith+
qed

lemma clamped_examples:
  "min (double (340 + TEMPERATURE_STEP)) WARM_TEMPERATURE = 344"
  "max (double (150 - TEMPERATURE_STEP)) COLD_TEMPERATURE = 143"
  using increase_rounded(1) [of 340] decrease_rounded(2) [of 150]
  by (simp_all add: WARM_TEMPERATURE_def COLD_TEMPERATURE_def)

text \<open>
  C2, as amended. The step is the double nearest to \<open>201 / 20\<close>, and the sums are
  rounded to doubles. Every push of a temperature adjustment answers one fetched state
  and carries the temperature field alone. \<open>increaseTemperature\<close> pushes
  \<open>min (current + step) 344\<close>, never more than 344; \<open>decreaseTemperature\<close> pushes
  \<open>max (current - step) 143\<close>, never less than 143. Each operation clamps at one end
  only; from a current value in \<open>[143,344]\<close> the value pushed lies in \<open>[143,344]\<close>.
  The value returned is one of the values pushed.
\<close>

theorem temperature_adjustments_clamped:
  "TEMPERATURE_STEP = double (201 / 20) \<and>
   length (pushed (exchanges_of (increaseTemperature ax) s)) =
     length (fetched (exchanges_of (increaseTemperature ax) s)) \<and>
   (\<forall>(st, opts) \<in> set (zip (fetched (exchanges_of (increaseTemperature ax) s))
                          (pushed (exchanges_of (increaseTemperature ax) s))).
      \<exists>v. opts = no_options\<lparr>temperature_opt := Some v\<rparr> \<and>
          v = min (double (temperature st + TEMPERATURE_STEP)) WARM_TEMPERATURE \<and> v \<le> 344 \<and>
          (143 \<le> temperature st \<and> temperature st \<le> 344 \<longrightarrow> 143 \<le> v \<and> v \<le> 344)) \<and>
   (\<forall>v. fst (increaseTemperature ax s) = Inr (Some v) \<longrightarrow>
      no_options\<lparr>temperature_opt := Some v\<rparr>
        \<in> set (pushed (exchanges_of (increaseTemperature ax) s))) \<and>
   length (pushed (exchanges_of (decreaseTemperature ax) s)) =
     length (fetched (exchanges_of (decreaseTemperature ax) s)) \<and>
   (\<forall>(st, opts) \<in> set (zip (fetched (exchanges_of (decreaseTemperature ax) s))
                          (pushed (exchanges_of (decreaseTemperature ax) s))).
      \<exists>v. opts = no_options\<lparr>temperature_opt := Some v\<rparr> \<and>
          v = max (double (temperature st - TEMPERATURE_STEP)) COLD_TEMPERATURE \<and> 143 \<le> v \<and>
          (143 \<le> temperature st \<and> temperature st \<le> 344 \<longrightarrow> 143 \<le> v \<and> v \<le> 344)) \<and>
   (\<forall>v. fst (decreaseTemperature ax s) = Inr (Some v) \<longrightarrow>
      no_options\<lparr>temperature_opt := Some v\<rparr>
        \<in> set (pushed (exchanges_of (decreaseTemperature ax) s)))"
proof -
  note up = operation_pushes [of "increaseTemperature ax", OF increaseTemperature_control]
  note down = operation_pushes [of "decreaseTemperature ax", OF decreaseTemperature_control]
  note bounds = WARM_TEMPERATURE_def COLD_TEMPERATURE_def
  have up_in: "143 \<le> min (double (t + TEMPERATURE_STEP)) WARM_TEMPERATURE"
    if "143 \<le> t" "t \<le> 344" for t
    using increase_rounded(1) [OF that] that by (simp add: bounds)
  have down_in: "max (double (t - TEMPERATURE_STEP)) COLD_TEMPERATURE \<le> 344"
    if "143 \<le> t" "t \<le> 344" for t
    using decrease_rounded(2) [OF that] that by (simp add: bounds)
  have "TEMPERATURE_STEP = double (201 / 20)"
    by (simp add: TEMPERATURE_STEP_def bounds double_examples)
  moreover have "length (pushed (exchanges_of (increaseTemperature ax) s)) =
     length (fetched (exchanges_of (increaseTemperature ax) s))"
    by (simp add: up(1))
  moreover have "\<forall>(st, opts) \<in> set (zip (fetched (exchanges_of (increaseTemperature ax) s))
                          (pushed (exchanges_of (increaseTemperature ax) s))).
      \<exists>v. opts = no_options\<lparr>temperature_opt := Some v\<rparr> \<and>
          v = min (double (temperature st + TEMPERATURE_STEP)) WARM_TEMPERATURE \<and> v \<le> 344 \<and>
          (143 \<le> temperature st \<and> temperature st \<le> 344 \<longrightarrow> 143 \<le> v \<and> v \<le> 344)"
    unfolding up(1) zip_map_self using up_in by (auto simp: bounds)
  moreover have "\<forall>v. fst (increaseTemperature ax s) = Inr (Some v) \<longrightarrow>
      no_options\<lparr>temperature_opt := Some v\<rparr>
        \<in> set (pushed (exchanges_of (increaseTemperature ax) s))"
    using up(2) last_in_set by metis
  moreover have "length (pushed (exchanges_of (decreaseTemperature ax) s)) =
     length (fetched (exchanges_of (decreaseTemperature ax) s))"
    by (simp add: down(1))
  moreover have "\<forall>(st, opts) \<in> set (zip (fetched (exchanges_of (decreaseTemperature ax) s))
                          (pushed (exchanges_of (decreaseTemperature ax) s))).
      \<exists>v. opts = no_options\<lparr>temperature_opt := Some v\<rparr> \<and>
          v = max (double (temperature st - TEMPERATURE_STEP)) COLD_TEMPERATURE \<and> 143 \<le> v \<and>
          (143 \<le> temperature st \<and> temperature st \<le> 344 \<longrightarrow> 143 \<le> v \<and> v \<le> 344)"
    unfolding down(1) zip_map_self using down_in by (auto simp: bounds)
  moreover have "\<forall>v. fst (decreaseTemperature ax s) = Inr (Some v) \<longrightarrow>
      no_options\<lparr>temperature_opt := Some v\<rparr>
        \<in> set (pushed (exchanges_of (decreaseTemperature ax) s))"
    using down(2) last_in_set by metis
  ultimately show ?thesis by (intro conjI)
qed

theorem temperature_adjustments_clamped_witness:
  "fetched (exchanges_of (increaseTemperature device_axios) (desk_light True 40 340)) =
     [\<lparr>on = True, brightness = 40, temperature = 340\<rparr>] \<and>
   pushed (exchanges_of (increaseTemperature device_axios) (desk_light True 40 340)) =
     [no_options\<lparr>temperature_opt := Some 344\<rparr>] \<and>
   fst (increaseTemperature device_axios (desk_light True 40 340)) = Inr (Some 344) \<and>
   fetched (exchanges_of (decreaseTemperature device_axios) (desk_light True 40 150)) =
     [\<lparr>on = True, brightness = 40, temperature = 150\<rparr>] \<and>
   pushed (exchanges_of (decreaseTemperature device_axios) (desk_light True 40 150)) =
     [no_options\<lparr>temperature_opt := Some 143\<rparr>] \<and>
   fst (decreaseTemperature device_axios (desk_light True 40 150)) = Inr (Some 143)"
  using temperature_adjustments_clamped [of device_axios "desk_light True 40 340"]
    temperature_adjustments_clamped [of device_axios "desk_light True 40 150"]
  by (simp add: increaseTemperature_desk decreaseTemperature_desk clamped_examples)

text \<open>
  A light reporting a temperature of 100 is pushed the double \<open>110.05\<close> by
  \<open>increaseTemperature\<close>, and one reporting 400 is pushed the double \<open>389.95\<close> by
  \<open>decreaseTemperature\<close>: neither value is in \<open>[143,344]\<close>.
\<close>

theorem temperature_one_sided_counterexample:
  "pushed (exchanges_of (increaseTemperature device_axios) (desk_light True 40 100)) =
     [no_options\<lparr>temperature_opt := Some (7744080296751923 / 70368744177664)\<rparr>] \<and>
   fst (increaseTemperature device_axios (desk_light True 40 100)) =
     Inr (Some (7744080296751923 / 70368744177664)) \<and>
   \<not> (143 \<le> (7744080296751923 / 70368744177664 :: rat)) \<and>
   pushed (exchanges_of (decreaseTemperature device_axios) (desk_light True 40 400)) =
     [no_options\<lparr>temperature_opt := Some (6860072948020019 / 17592186044416)\<rparr>] \<and>
   fst (decreaseTemperature device_axios (desk_light True 40 400)) =
     Inr (Some (6860072948020019 / 17592186044416)) \<and>
   \<not> ((6860072948020019 / 17592186044416 :: rat) \<le> 344)"
  by (simp add: increaseTemperature_desk decreaseTemperature_desk rounded_examples
      WARM_TEMPERATURE_def COLD_TEMPERATURE_def)

section \<open>Integrality of the temperature pushed\<close>

lemma between_integers:
  "of_int m < x \<Longrightarrow> x < of_int m + 1 \<Longrightarrow> \<not> is_integer x"
proof
  assume "of_int m < x" "x < of_int m + 1" "is_integer x"
  then obtain n where n: "x = of_int n"
    by (metis is_integer_def)
  with \<open>of_int m < x\<close> \<open>x < of_int m + 1\<close> have "m < n" "n < m + 1"
    by simp_all
  then show False by simp
qed

lemma increase_integrality:
  assumes "is_integer t" "143 \<le> t" "t \<le> 344"
  defines "v \<equiv> min (double (t + TEMPERATURE_STEP)) WARM_TEMPERATURE"
  shows "is_integer v \<longleftrightarrow> 334 \<le> t" and "334 \<le> t \<Longrightarrow> v = 344"
proof -
  from assms(1) obtain n where t: "t = of_int n"
    by (metis is_integer_def)
  note r = increase_rounded [OF assms(2,3)]
  show clamp: "v = 344" if "334 \<le> t"
    using that r(1) by (simp add: v_def WARM_TEMPERATURE_def min_def)
  show "is_integer v \<longleftrightarrow> 334 \<le> t"
  proof (cases "334 \<le> t")
    case True
    with clamp have "v = of_int 344" by simp
    then have "is_integer v"
      unfolding is_integer_def by (simp only: floor_of_int)
    with True show ?thesis by simp
  next
    case False
    then have "n \<le> 333" by (simp add: t)
    then have "t + 1007 / 100 < 344"
      using of_int_le_iff [of n 333, where ?'a = rat] by (simp add: t)
    with r(2) have v: "v = double (t + TEMPERATURE_STEP)"
      by (simp add: v_def WARM_TEMPERATURE_def min_def)
    have "of_int (n + 10) < v" "v < of_int (n + 10) + 1"
      using r by (simp_all add: v t)
    then have "\<not> is_integer v"
      by (rule between_integers)
    with False show ?thesis by simp
  qed
qed

lemma decrease_integrality:
  assumes "is_integer t" "143 \<le> t" "t \<le> 344"
  defines "v \<equiv> max (double (t - TEMPERATURE_STEP)) COLD_TEMPERATURE"
  shows "is_integer v \<longleftrightarrow> t \<le> 153" and "t \<le> 153 \<Longrightarrow> v = 143"
proof -
  from assms(1) obtain n where t: "t = of_int n"
    by (metis is_integer_def)
  note r = decrease_rounded [OF assms(2,3)]
  show clamp: "v = 143" if "t \<le> 153"
    using that r(2) by (simp add: v_def COLD_TEMPERATURE_def max_def)
  show "is_integer v \<longleftrightarrow> t \<le> 153"
  proof (cases "t \<le> 153")
    case True
    with clamp have "v = of_int 143" by simp
    then have "is_integer v"
      unfolding is_integer_def by (simp only: floor_of_int)
    with True show ?thesis by simp
  next
    case False
    then have "154 \<le> n" by (simp add: t)
    then have "143 < t - 1007 / 100"
      using of_int_le_iff [of 154 n, where ?'a = rat] by (simp add: t)
    with r(1) have v: "v = double (t - TEMPERATURE_STEP)"
      by (simp add: v_def COLD_TEMPERATURE_def max_def)
    have "of_int (n - 11) < v" "v < of_int (n - 11) + 1"
      using r by (simp_all add: v t)
    then have "\<not> is_integer v"
      by (rule between_integers)
    with False show ?thesis by simp
  qed
qed

text \<open>
  C9, as amended. From an integer current temperature in \<open>[143,344]\<close>, the value an
  adjustment computes and pushes is an integer exactly when the clamp applies, and it is
  then the bound: 344 for \<open>increaseTemperature\<close>, from 334 upwards, and 143 for
  \<open>decreaseTemperature\<close>, from 153 downwards. From every other integer of the domain
  the value pushed is not an integer: the step, one twentieth of the span, is not one.
\<close>

theorem temperature_integral_only_at_bound:
  "(\<forall>(st, opts) \<in> set (zip (fetched (exchanges_of (increaseTemperature ax) s))
                          (pushed (exchanges_of (increaseTemperature ax) s))).
      is_integer (temperature st) \<and> 143 \<le> temperature st \<and> temperature st \<le> 344 \<longrightarrow>
      (\<exists>v. opts = no_options\<lparr>temperature_opt := Some v\<rparr> \<and>
           (is_integer v \<longleftrightarrow> 334 \<le> temperature st) \<and>
           (334 \<le> temperature st \<longrightarrow> v = 344))) \<and>
   (\<forall>(st, opts) \<in> set (zip (fetched (exchanges_of (decreaseTemperature ax) s))
                          (pushed (exchanges_of (decreaseTemperature ax) s))).
      is_integer (temperature st) \<and> 143 \<le> temperature st \<and> temperature st \<le> 344 \<longrightarrow>
      (\<exists>v. opts = no_options\<lparr>temperature_opt := Some v\<rparr> \<and>
           (is_integer v \<longleftrightarrow> temperature st \<le> 153) \<and>
           (temperature st \<le> 153 \<longrightarrow> v = 143)))"
proof (intro conjI)
  note up = operation_pushes(1) [of "increaseTemperature ax", OF increaseTemperature_control]
  note down = operation_pushes(1) [of "decreaseTemperature ax", OF decreaseTemperature_control]
  show "\<forall>(st, opts) \<in> set (zip (fetched (exchanges_of (increaseTemperature ax) s))
                          (pushed (exchanges_of (increaseTemperature ax) s))).
      is_integer (temperature st) \<and> 143 \<le> temperature st \<and> temperature st \<le> 344 \<longrightarrow>
      (\<exists>v. opts = no_options\<lparr>temperature_opt := Some v\<rparr> \<and>
           (is_integer v \<longleftrightarrow> 334 \<le> temperature st) \<and>
           (334 \<le> temperature st \<longrightarrow> v = 344))"
    unfolding up zip_map_self
    using increase_integrality by blast
  show "\<forall>(st, opts) \<in> set (zip (fetched (exchanges_of (decreaseTemperature ax) s))
                          (pushed (exchanges_of (decreaseTemperature ax) s))).
      is_integer (temperature st) \<and> 143 \<le> temperature st \<and> temperature st \<le> 344 \<longrightarrow>
      (\<exists>v. opts = no_options\<lparr>temperature_opt := Some v\<rparr> \<and>
           (is_integer v \<longleftrightarrow> temperature st \<le> 153) \<and>
           (temperature st \<le> 153 \<longrightarrow> v = 143))"
    unfolding down zip_map_self
    using decrease_integrality by blast
qed

lemma integer_examples:
  "is_integer 200" "is_integer 340" "is_integer 344" "is_integer 150" "is_integer 143"
  by (simp_all add: is_integer_def)

lemma fraction_example: "\<not> is_integer (3695238678629581 / 17592186044416)"
  using between_integers [of 210 "3695238678629581 / 17592186044416"] by simp

theorem temperature_integral_only_at_bound_witness:
  "fetched (exchanges_of (increaseTemperature device_axios) (desk_light True 40 340)) =
     [\<lparr>on = True, brightness = 40, temperature = 340\<rparr>] \<and>
   is_integer 340 \<and>
   pushed (exchanges_of (increaseTemperature device_axios) (desk_light True 40 340)) =
     [no_options\<lparr>temperature_opt := Some 344\<rparr>] \<and>
   is_integer 344 \<and>
   fetched (exchanges_of (decreaseTemperature device_axios) (desk_light True 40 150)) =
     [\<lparr>on = True, brightness = 40, temperature = 150\<rparr>] \<and>
   is_integer 150 \<and>
   pushed (exchanges_of (decreaseTemperature device_axios) (desk_light True 40 150)) =
     [no_options\<lparr>temperature_opt := Some 143\<rparr>] \<and>
   is_integer 143"
  using temperature_integral_only_at_bound [of device_axios "desk_light True 40 340"]
    temperature_integral_only_at_bound [of device_axios "desk_light True 40 150"]
  by (simp add: increaseTemperature_desk decreaseTemperature_desk clamped_examples
      integer_examples)

text \<open>
  From the integer temperature 200, inside \<open>[143,344]\<close>, \<open>increaseTemperature\<close>
  computes, pushes and returns the double \<open>210.05\<close>, which is not an integer.
\<close>

theorem temperature_not_integer_counterexample:
  "is_integer 200 \<and> 143 \<le> (200 :: rat) \<and> (200 :: rat) \<le> 344 \<and>
   pushed (exchanges_of (increaseTemperature device_axios) (desk_light True 40 200)) =
     [no_options\<lparr>temperature_opt := Some (3695238678629581 / 17592186044416)\<rparr>] \<and>
   fst (increaseTemperature device_axios (desk_light True 40 200)) =
     Inr (Some (3695238678629581 / 17592186044416)) \<and>
   \<not> is_integer (3695238678629581 / 17592186044416)"
  by (simp add: increaseTemperature_desk integer_examples fraction_example rounded_examples
      WARM_TEMPERATURE_def)

section \<open>Toggle twice\<close>

lemma dom_flip_power: "dom (flip_power u w) = dom w"
  by (auto simp: flip_power_def split: option.splits)

lemma flip_power_twice: "flip_power u (flip_power u w) = w"
  by (auto simp: flip_power_def fun_eq_iff split: option.splits)

lemma flip_power_commute: "flip_power u (flip_power v w) = flip_power v (flip_power u w)"
  by (auto simp: flip_power_def fun_eq_iff split: option.splits)

lemma fold_flip_power_commute:
  "fold flip_power us (flip_power u w) = flip_power u (fold flip_power us w)"
proof (induction us arbitrary: w)
  case Nil
  show ?case by simp
next
  case (Cons v us)
  have "fold flip_power (v # us) (flip_power u w) = fold flip_power us (flip_power u (flip_power v w))"
    by (simp add: flip_power_commute [of v u])
  also have "\<dots> = flip_power u (fold flip_power us (flip_power v w))"
    by (rule Cons.IH)
  finally show ?case by simp
qed

lemma fold_flip_power_twice: "fold flip_power us (fold flip_power us w) = w"
proof (induction us arbitrary: w)
  case Nil
  show ?case by simp
next
  case (Cons u us)
  have "fold flip_power (u # us) (fold flip_power (u # us) w) =
          fold flip_power us (flip_power u (fold flip_power us (flip_power u w)))"
    by simp
  also have "\<dots> = fold flip_power us (fold flip_power us (flip_power u (flip_power u w)))"
    by (simp add: fold_flip_power_commute)
  also have "\<dots> = w"
    by (simp add: flip_power_twice Cons.IH)
  finally show ?case .
qed

lemma dom_fold_flip_power: "dom (fold flip_power us w) = dom w"
  by (induction us arbitrary: w) (simp_all add: dom_flip_power)

lemma merge_power: "merge_options (no_options\<lparr>on_opt := Some v\<rparr>) l = l\<lparr>on := v\<rparr>"
  by (simp add: merge_options_def no_options_def)

lemma toggle_loop_devices:
  assumes "\<forall>k \<in> set ks. lights_url k \<in> dom (net s)"
  shows "\<exists>v s'. toggle_loop device_axios ks new s = (Inr v, s') \<and>
           net s' = fold flip_power (map lights_url ks) (net s) \<and>
           keyLights s' = keyLights s"
  using assms
proof (induction ks arbitrary: new s)
  case Nil
  show ?case by simp
next
  case (Cons k rest)
  let ?u = "lights_url k"
  from Cons.prems obtain l where l: "net s ?u = Some l"
    by auto
  let ?s1 = "s\<lparr>net := net s, trace := trace s @ [GET ?u (Some [l])]\<rparr>"
  let ?opts = "no_options\<lparr>on_opt := Some (\<not> on l)\<rparr>"
  let ?s2 = "?s1\<lparr>net := (net s)(?u \<mapsto> l\<lparr>on := \<not> on l\<rparr>),
                  trace := trace ?s1 @ [PUT ?u ?opts True]\<rparr>"
  have g: "getKeyLight device_axios k s = (Inr (Some l), ?s1)"
    by (simp add: getKeyLight_def device_axios_def l Let_def)
  have u: "updateKeyLight device_axios k ?opts ?s1 = (Inr (), ?s2)"
    by (simp add: updateKeyLight_def device_axios_def l Let_def merge_power)
  have step: "toggle_loop device_axios (k # rest) new s =
                toggle_loop device_axios rest (Some (\<not> on l)) ?s2"
    using g u by (simp add: Let_def)
  have n2: "net ?s2 = flip_power ?u (net s)"
    by (simp add: flip_power_def l)
  have "\<forall>k \<in> set rest. lights_url k \<in> dom (net ?s2)"
    using Cons.prems unfolding n2 dom_flip_power by simp
  from Cons.IH [OF this, of "Some (\<not> on l)"] obtain v s' where
    r: "toggle_loop device_axios rest (Some (\<not> on l)) ?s2 = (Inr v, s')"
       "net s' = fold flip_power (map lights_url rest) (net ?s2)"
       "keyLights s' = keyLights ?s2"
    by blast
  show ?case
    unfolding step using r n2 by simp
qed

text \<open>
  C7. Over devices that answer every fetch with their state and apply every push (and
  that nothing else changes), with every endpoint of the registry reachable, two toggles
  in a row both succeed and leave every device in the state it started from: the power
  of each light is back to the original. On each call every value pushed is the negation
  of the power just fetched, and nothing but the power field is pushed.
\<close>

theorem toggle_twice_restores_power:
  assumes "\<forall>k \<in> set (keyLights s). lights_url k \<in> dom (net s)"
  shows "(\<exists>v1 v2. fst (toggle device_axios s) = Inr v1 \<and>
           fst (toggle device_axios (snd (toggle device_axios s))) = Inr v2) \<and>
         net (snd (toggle device_axios (snd (toggle device_axios s)))) = net s \<and>
         pushed (exchanges_of (toggle device_axios) s) =
           map (\<lambda>st. no_options\<lparr>on_opt := Some (\<not> on st)\<rparr>)
             (fetched (exchanges_of (toggle device_axios) s)) \<and>
         pushed (exchanges_of (toggle device_axios) (snd (toggle device_axios s))) =
           map (\<lambda>st. no_options\<lparr>on_opt := Some (\<not> on st)\<rparr>)
             (fetched (exchanges_of (toggle device_axios) (snd (toggle device_axios s))))"
proof -
  let ?us = "map lights_url (keyLights s)"
  from toggle_loop_devices [OF assms, of None] obtain v1 s1 where
    t1: "toggle device_axios s = (Inr v1, s1)" "net s1 = fold flip_power ?us (net s)"
        "keyLights s1 = keyLights s"
    unfolding toggle_def by blast
  have "\<forall>k \<in> set (keyLights s1). lights_url k \<in> dom (net s1)"
    using assms by (simp add: t1(2,3) dom_fold_flip_power)
  from toggle_loop_devices [OF this, of None] obtain v2 s2 where
    t2: "toggle device_axios s1 = (Inr v2, s2)"
        "net s2 = fold flip_power (map lights_url (keyLights s1)) (net s1)"
    unfolding toggle_def by blast
  have "net s2 = net s"
    by (simp add: t2(2) t1(2,3) fold_flip_power_twice)
  with t1(1) t2(1)
  have "(\<exists>v1 v2. fst (toggle device_axios s) = Inr v1 \<and>
           fst (toggle device_axios (snd (toggle device_axios s))) = Inr v2) \<and>
         net (snd (toggle device_axios (snd (toggle device_axios s)))) = net s"
    by simp
  moreover note operation_pushes(1) [of "toggle device_axios", OF toggle_control, of s]
    operation_pushes(1) [of "toggle device_axios", OF toggle_control,
      of "snd (toggle device_axios s)"]
  ultimately show ?thesis by (intro conjI) simp_all
qed

lemma toggle_desk_again:
  "fst (toggle device_axios (snd (toggle device_axios (desk_light p b t)))) = Inr (Some p)"
  "net (snd (toggle device_axios (snd (toggle device_axios (desk_light p b t))))) =
     net (desk_light p b t)"
  by (simp_all add: toggle_def desk_light_def getKeyLight_def updateKeyLight_def
      device_axios_def desk_url Let_def merge_power)

theorem toggle_twice_restores_power_witness:
  "lights_url desk \<in> dom (net (desk_light True 40 200)) \<and>
   fst (toggle device_axios (desk_light True 40 200)) = Inr (Some False) \<and>
   fst (toggle device_axios (snd (toggle device_axios (desk_light True 40 200)))) =
     Inr (Some True) \<and>
   net (snd (toggle device_axios (snd (toggle device_axios (desk_light True 40 200))))) =
     net (desk_light True 40 200) \<and>
   pushed (exchanges_of (toggle device_axios) (desk_light True 40 200)) =
     [no_options\<lparr>on_opt := Some False\<rparr>]"
proof -
  have reachable:
    "\<forall>k \<in> set (keyLights (desk_light True 40 200)).
       lights_url k \<in> dom (net (desk_light True 40 200))"
    by (simp add: desk_light_def)
  have "lights_url desk \<in> dom (net (desk_light True 40 200))"
    by (simp add: desk_light_def)
  with toggle_twice_restores_power [OF reachable] show ?thesis
    by (simp add: toggle_desk toggle_desk_again)
qed

section \<open>Static discovery\<close>

lemma split_comma_not_Nil: "split_comma str \<noteq> []"
  by (induction str) (auto split: list.splits)

lemma split_comma_Cons:
  "c \<noteq> CHR '','' \<Longrightarrow> split_comma (c # cs) = (c # hd (split_comma cs)) # tl (split_comma cs)"
  using split_comma_not_Nil [of cs] by (cases "split_comma cs") simp_all

lemma split_comma_prefix:
  "CHR '','' \<notin> set e \<Longrightarrow>
     split_comma (e @ str) = (e @ hd (split_comma str)) # tl (split_comma str)"
proof (induction e)
  case Nil
  show ?case using split_comma_not_Nil [of str] by simp
next
  case (Cons c e)
  then have c: "c \<noteq> CHR '',''" and e: "CHR '','' \<notin> set e"
    by auto
  have "split_comma ((c # e) @ str) =
          (c # hd (split_comma (e @ str))) # tl (split_comma (e @ str))"
    using split_comma_Cons [OF c, of "e @ str"] by simp
  also have "\<dots> = ((c # e) @ hd (split_comma str)) # tl (split_comma str)"
    by (simp add: Cons.IH [OF e])
  finally show ?case .
qed

lemma split_comma_entry: "CHR '','' \<notin> set e \<Longrightarrow> split_comma e = [e]"
  using split_comma_prefix [of e "[]"] by simp

lemma split_comma_separated:
  "es \<noteq> [] \<Longrightarrow> \<forall>e \<in> set es. CHR '','' \<notin> set e \<Longrightarrow> split_comma (comma_separated es) = es"
proof (induction es rule: comma_separated.induct)
  case 1
  then show ?case by simp
next
  case (2 e)
  then show ?case by (simp add: split_comma_entry)
next
  case (3 e e' es)
  have "split_comma (comma_separated (e # e' # es)) =
          split_comma (e @ CHR '','' # comma_separated (e' # es))"
    by simp
  also have "\<dots> = (e @ hd (split_comma (CHR '','' # comma_separated (e' # es)))) #
                     tl (split_comma (CHR '','' # comma_separated (e' # es)))"
    using 3(3) by (intro split_comma_prefix) simp
  also have "\<dots> = e # split_comma (comma_separated (e' # es))"
    by simp
  also have "\<dots> = e # e' # es"
    using 3 by simp
  finally show ?case .
qed

lemma length_split_comma:
  "length (split_comma str) = Suc (length (filter (\<lambda>c. c = CHR '','') str))"
  by (induction str) (auto split: list.splits simp: split_comma_not_Nil)

text \<open>
  C6, as amended. A static address list that is not the empty string and consists of
  \<open>N\<close> entries separated by commas makes \<open>discover\<close> return at once, without opening
  a browser, with a registry of exactly \<open>N\<close> endpoints, in the order of the list: the
  host of each is the entry with the white space at both ends removed, the port of each
  is 9123. No call is added to the trace and the world behind the network is untouched.
  The empty string is a list that the source takes for an absent one.
\<close>

theorem static_discovery:
  assumes "es \<noteq> []" and "\<forall>e \<in> set es. CHR '','' \<notin> set e"
      and "comma_separated es \<noteq> []"
      and "keyLights_ips preferences = Some (comma_separated es)"
  shows "\<exists>s'. discover preferences s = Static s' \<and>
           keyLights s' = map (\<lambda>e. \<lparr>ip = trim e, port = 9123\<rparr>) es \<and>
           length (keyLights s') = length es \<and>
           net s' = net s \<and> trace s' = trace s"
  using assms by (simp add: discover_def split_comma_separated Let_def comp_def)

lemma trim_examples:
  "trim ''192.168.1.20'' = ''192.168.1.20''" "trim '' 192.168.1.21 '' = ''192.168.1.21''"
  "trim ([CHR 0xC2, CHR 0xA0] @ ''192.168.1.21'' @ [CHR 0xE2, CHR 0x80, CHR 0xA8]) =
     ''192.168.1.21''"
  by (simp_all add: trim_def trim_start_def trim_end_def white_space_def)

theorem static_discovery_witness:
  "comma_separated [''192.168.1.20'', '' 192.168.1.21 ''] = ''192.168.1.20, 192.168.1.21 '' \<and>
   keyLights_ips ips_preferences = Some ''192.168.1.20, 192.168.1.21 '' \<and>
   (\<exists>s'. discover ips_preferences no_lights = Static s' \<and>
      keyLights s' = [desk, shelf] \<and> net s' = net no_lights \<and> trace s' = trace no_lights)"
proof -
  have 1: "[''192.168.1.20'', '' 192.168.1.21 ''] \<noteq> []" by simp
  have 2: "\<forall>e \<in> set [''192.168.1.20'', '' 192.168.1.21 '']. CHR '','' \<notin> set e" by simp
  have 3: "comma_separated [''192.168.1.20'', '' 192.168.1.21 ''] \<noteq> []" by simp
  have 4: "keyLights_ips ips_preferences =
             Some (comma_separated [''192.168.1.20'', '' 192.168.1.21 ''])"
    by (simp add: ips_preferences_def)
  from static_discovery [OF 1 2 3 4, of no_lights] 4 show ?thesis
    by (auto simp add: trim_examples desk_def shelf_def)
qed

text \<open>
  The empty string is a list of one entry, the empty one. It is falsy: \<open>discover\<close>
  does not build a registry of one endpoint from it, but resets the registry and starts
  a Bonjour browser.
\<close>

theorem empty_list_not_static_counterexample:
  "keyLights_ips empty_ips_preferences = Some (comma_separated [[]]) \<and>
   length (split_comma (comma_separated [[]])) = 1 \<and>
   discover empty_ips_preferences no_lights =
     Browsing (start_browsing empty_ips_preferences no_lights) \<and>
   keyLights (app (start_browsing empty_ips_preferences no_lights)) = []"
  by (simp add: empty_ips_preferences_def discover_def start_browsing_def)

section \<open>The discovery timer\<close>

lemma parseInt_examples: "parseInt ''1'' = Some 1" "parseInt ''2'' = Some 2"
  by (simp_all add: parseInt_def trim_start_def white_space_def is_digit_def digits_value_def)

text \<open>While only announcements are delivered, the promise is never rejected, and it is
  pending as long as the registry is empty.\<close>

lemma on_service_registry:
  "keyLights (app (on_service service b)) = keyLights (app b) \<or>
   (\<exists>k. keyLights (app (on_service service b)) = keyLights (app b) @ [k])"
  by (simp add: on_service_def Let_def split: option.splits)

lemma on_service_find:
  "find (on_service service b) = find b \<or>
   (keyLights (app (on_service service b)) \<noteq> [] \<and>
    find (on_service service b) = resolve (find b) KeyLights_array)"
  by (simp add: on_service_def Let_def split: option.splits)

lemma announcements_invariant:
  assumes "\<forall>e. find b \<noteq> Rejected e" and "keyLights (app b) = [] \<longrightarrow> find b = Pending"
  shows "(\<forall>e. find (deliver_all (map Up services) b) \<noteq> Rejected e) \<and>
         (keyLights (app (deliver_all (map Up services) b)) = [] \<longrightarrow>
            find (deliver_all (map Up services) b) = Pending)"
  using assms
proof (induction services arbitrary: b)
  case Nil
  then show ?case by (simp add: deliver_all_def)
next
  case (Cons service services)
  let ?b = "deliver (Up service) b"
  have 1: "\<forall>e. find ?b \<noteq> Rejected e"
    using Cons.prems(1) on_service_find [of service b]
    by (auto simp: resolve_def split: promise.splits)
  have 2: "keyLights (app ?b) = [] \<longrightarrow> find ?b = Pending"
    using Cons.prems(2) on_service_find [of service b] on_service_registry [of service b]
    by auto
  from Cons.IH [OF 1 2] show ?case
    by (simp add: deliver_all_def)
qed

text \<open>
  C4. The timer fires once, after the announcements that arrived before it. It rejects
  discovery, with the error that no Key Light could be discovered, exactly when the
  registry is still empty at that moment; when at least one endpoint has been found,
  the timer's callback changes nothing: it neither resolves nor rejects the promise.
\<close>

theorem timer_rejects_iff_nothing_found:
  assumes "b = deliver_all (map Up services) (start_browsing preferences s)"
  shows "((\<exists>e. find (deliver Timeout b) = Rejected e) \<longleftrightarrow> keyLights (app b) = []) \<and>
         (keyLights (app b) = [] \<longrightarrow>
            find (deliver Timeout b) = Rejected ''Cannot discover any Key Lights in the network'') \<and>
         (keyLights (app b) \<noteq> [] \<longrightarrow> deliver Timeout b = b)"
proof -
  let ?b0 = "start_browsing preferences s :: 'a browsing"
  have "\<forall>e. find ?b0 \<noteq> Rejected e" "keyLights (app ?b0) = [] \<longrightarrow> find ?b0 = Pending"
    by (simp_all add: start_browsing_def)
  from announcements_invariant [OF this, of services]
  have inv: "\<forall>e. find b \<noteq> Rejected e" "keyLights (app b) = [] \<longrightarrow> find b = Pending"
    by (simp_all add: assms)
  show ?thesis
  proof (cases "keyLights (app b) = []")
    case True
    with inv(2) show ?thesis
      by (simp add: on_timeout_def reject_def)
  next
    case False
    with inv(1) show ?thesis
      by (simp add: on_timeout_def)
  qed
qed

lemma nothing_announced:
  "deliver_all (map Up []) (start_browsing two_preferences no_lights) =
     start_browsing two_preferences no_lights"
  by (simp add: deliver_all_def)

lemma desk_announced:
  "keyLights (app (deliver_all (map Up [desk_service])
      (start_browsing two_preferences no_lights))) = [desk]"
  "find (deliver_all (map Up [desk_service])
      (start_browsing two_preferences no_lights)) = Pending"
  by (simp_all add: deliver_all_def start_browsing_def on_service_def desk_service_def
      no_lights_def parseInt_examples two_preferences_def desk_def Let_def)

theorem timer_rejects_iff_nothing_found_witness:
  "keyLights (app (start_browsing two_preferences no_lights)) = [] \<and>
   find (deliver Timeout (start_browsing two_preferences no_lights)) =
     Rejected ''Cannot discover any Key Lights in the network'' \<and>
   keyLights (app (deliver_all (map Up [desk_service])
      (start_browsing two_preferences no_lights))) = [desk] \<and>
   find (deliver Timeout (deliver_all (map Up [desk_service])
      (start_browsing two_preferences no_lights))) = Pending"
  using timer_rejects_iff_nothing_found [OF nothing_announced [symmetric]]
    timer_rejects_iff_nothing_found [OF refl,
      of "[desk_service]" two_preferences no_lights]
    desk_announced
  by (simp add: start_browsing_def no_lights_def)

section \<open>Reaching the target count\<close>

lemma outcome_stays: "find b \<noteq> Pending \<Longrightarrow> find (deliver ev b) = find b"
  by (cases ev)
     (auto simp: on_service_def on_timeout_def resolve_def reject_def Let_def
        split: option.splits promise.splits)

lemma destroyed_stays: "destroyed b \<Longrightarrow> destroyed (deliver ev b)"
  by (cases ev) (auto simp: on_service_def on_timeout_def Let_def split: option.splits)

lemma registry_grows: "\<exists>more. keyLights (app (deliver ev b)) = keyLights (app b) @ more"
  by (cases ev) (auto simp: on_service_def on_timeout_def Let_def split: option.splits)

lemma outcome_stays_all: "find b \<noteq> Pending \<Longrightarrow> find (deliver_all evs b) = find b"
  unfolding deliver_all_def
  by (induction evs arbitrary: b) (simp_all add: outcome_stays)

lemma destroyed_stays_all: "destroyed b \<Longrightarrow> destroyed (deliver_all evs b)"
  unfolding deliver_all_def
  by (induction evs arbitrary: b) (simp_all add: destroyed_stays)

lemma registry_grows_all:
  "\<exists>more. keyLights (app (deliver_all evs b)) = keyLights (app b) @ more"
  unfolding deliver_all_def
proof (induction evs arbitrary: b)
  case Nil
  show ?case by simp
next
  case (Cons ev evs)
  from registry_grows [of ev b] obtain first where
    1: "keyLights (app (deliver ev b)) = keyLights (app b) @ first" ..
  from Cons.IH [of "deliver ev b"] obtain more where
    2: "keyLights (app (fold deliver evs (deliver ev b))) = keyLights (app (deliver ev b)) @ more" ..
  have "keyLights (app (fold deliver (ev # evs) b)) = keyLights (app b) @ (first @ more)"
    by (simp add: 1 2)
  then show ?case by (rule exI)
qed

lemma only_reference: "(r :: array_ref) = KeyLights_array"
  by (cases r)

lemma count_reached:
  assumes "keyLights (app (on_service service b)) \<noteq> keyLights (app b)"
      and "Some (int (length (keyLights (app (on_service service b))))) =
             count (on_service service b)"
  shows "destroyed (on_service service b)"
    and "find (on_service service b) = resolve (find b) KeyLights_array"
    and "keyLights (app (on_service service b)) \<noteq> []"
  using assms
  by (auto simp: on_service_def Let_def split: option.splits if_splits)

lemma announcements_only: "Timeout \<notin> set evs \<Longrightarrow> \<exists>services. evs = map Up services"
proof (induction evs)
  case Nil
  show ?case by simp
next
  case (Cons ev evs)
  then obtain services where "evs = map Up services" by auto
  moreover from Cons.prems obtain service where "ev = Up service"
    by (cases ev) auto
  ultimately have "ev # evs = map Up (service # services)" by simp
  then show ?case by (rule exI)
qed

text \<open>
  C5, as amended. After any callbacks, when an announcement brings the registry to the
  target count, \<open>bonjour.destroy()\<close> is called in the same callback, and discovery is
  resolved with the registry array unless the timer had rejected it before (it had fired
  while the registry was still empty); in particular it is resolved whenever the count
  is reached before the timer fires. From then on the outcome of discovery never
  changes, the instance stays destroyed, the timer's callback changes nothing, and no
  endpoint is removed from the registry or replaced in it.
\<close>

theorem target_count_resolves_and_destroys:
  assumes "b = deliver_all evs (start_browsing preferences s)"
      and "b' = deliver (Up service) b"
      and "keyLights (app b') \<noteq> keyLights (app b)"
      and "Some (int (length (keyLights (app b')))) = count b'"
  shows "destroyed b' \<and>
         ((\<forall>e. find b \<noteq> Rejected e) \<longrightarrow> find b' = Fulfilled KeyLights_array) \<and>
         (Timeout \<notin> set evs \<longrightarrow> find b' = Fulfilled KeyLights_array) \<and>
         deliver Timeout b' = b' \<and>
         (\<forall>later. destroyed (deliver_all later b') \<and>
                  find (deliver_all later b') = find b' \<and>
                  (\<exists>more. keyLights (app (deliver_all later b')) = keyLights (app b') @ more))"
proof -
  have step: "b' = on_service service b"
    by (simp add: assms(2))
  note reached = count_reached [of service b, folded step, OF assms(3,4)]
  have resolved: "find b' = Fulfilled KeyLights_array" if "\<forall>e. find b \<noteq> Rejected e"
    using that reached(2) only_reference by (cases "find b") (simp_all add: resolve_def)
  have early: "find b' = Fulfilled KeyLights_array" if "Timeout \<notin> set evs"
  proof -
    from that obtain services where evs: "evs = map Up services"
      using announcements_only by blast
    let ?b0 = "start_browsing preferences s :: 'a browsing"
    have "\<forall>e. find ?b0 \<noteq> Rejected e" "keyLights (app ?b0) = [] \<longrightarrow> find ?b0 = Pending"
      by (simp_all add: start_browsing_def)
    from announcements_invariant [OF this, of services]
    have "\<forall>e. find b \<noteq> Rejected e"
      by (simp add: assms(1) evs)
    then show ?thesis by (rule resolved)
  qed
  have settled: "find b' \<noteq> Pending"
    using reached(2) by (cases "find b") (simp_all add: resolve_def)
  have timer: "deliver Timeout b' = b'"
    using reached(3) by (simp add: on_timeout_def)
  have later: "destroyed (deliver_all later b') \<and> find (deliver_all later b') = find b' \<and>
      (\<exists>more. keyLights (app (deliver_all later b')) = keyLights (app b') @ more)" for later
    using destroyed_stays_all [OF reached(1)] outcome_stays_all [OF settled]
      registry_grows_all by blast
  from reached(1) resolved early timer later show ?thesis by blast
qed

lemma desk_found:
  "keyLights (app (deliver (Up desk_service)
      (deliver_all [] (start_browsing one_preferences no_lights)))) = [desk]"
  "keyLights (app (deliver_all [] (start_browsing one_preferences no_lights))) = []"
  "count (deliver (Up desk_service)
      (deliver_all [] (start_browsing one_preferences no_lights))) = Some 1"
  "find (deliver (Up desk_service)
      (deliver_all [] (start_browsing one_preferences no_lights))) = Fulfilled KeyLights_array"
  "destroyed (deliver (Up desk_service)
      (deliver_all [] (start_browsing one_preferences no_lights)))"
  by (simp_all add: deliver_all_def start_browsing_def on_service_def desk_service_def
      no_lights_def parseInt_examples one_preferences_def desk_def resolve_def Let_def)

lemma desk_found_late:
  "keyLights (app (deliver_all [Timeout, Up desk_service]
      (start_browsing one_preferences no_lights))) = [desk]"
  "count (deliver_all [Timeout, Up desk_service]
      (start_browsing one_preferences no_lights)) = Some 1"
  "find (deliver_all [Timeout, Up desk_service]
      (start_browsing one_preferences no_lights)) =
     Rejected ''Cannot discover any Key Lights in the network''"
  "destroyed (deliver_all [Timeout, Up desk_service]
      (start_browsing one_preferences no_lights))"
  by (simp_all add: deliver_all_def start_browsing_def on_service_def on_timeout_def
      desk_service_def no_lights_def parseInt_examples one_preferences_def desk_def
      resolve_def reject_def Let_def)

theorem target_count_resolves_and_destroys_witness:
  "keyLights (app (deliver_all [] (start_browsing one_preferences no_lights))) = [] \<and>
   keyLights (app (deliver (Up desk_service)
      (deliver_all [] (start_browsing one_preferences no_lights)))) = [desk] \<and>
   count (deliver (Up desk_service)
      (deliver_all [] (start_browsing one_preferences no_lights))) = Some 1 \<and>
   Timeout \<notin> set [] \<and>
   find (deliver (Up desk_service)
      (deliver_all [] (start_browsing one_preferences no_lights))) = Fulfilled KeyLights_array \<and>
   destroyed (deliver (Up desk_service)
      (deliver_all [] (start_browsing one_preferences no_lights)))"
proof -
  let ?b = "deliver_all [] (start_browsing one_preferences no_lights)"
  let ?b' = "deliver (Up desk_service) ?b"
  have 1: "keyLights (app ?b') \<noteq> keyLights (app ?b)"
    by (simp add: desk_found del: deliver.simps)
  have 2: "Some (int (length (keyLights (app ?b')))) = count ?b'"
    by (simp add: desk_found del: deliver.simps)
  from target_count_resolves_and_destroys [OF refl refl 1 2] desk_found show ?thesis
    by (simp del: deliver.simps)
qed

text \<open>
  With a target count of 1, the timer fires on the empty registry and rejects discovery;
  the desk light is announced afterwards. The registry length then equals the target
  count, and discovery is not resolved: it stays rejected.
\<close>

theorem rejected_before_count_counterexample:
  "length (keyLights (app (deliver_all [Timeout, Up desk_service]
      (start_browsing one_preferences no_lights)))) = 1 \<and>
   count (deliver_all [Timeout, Up desk_service]
      (start_browsing one_preferences no_lights)) = Some 1 \<and>
   find (deliver_all [Timeout, Up desk_service]
      (start_browsing one_preferences no_lights)) =
     Rejected ''Cannot discover any Key Lights in the network''"
  by (simp add: desk_found_late)

text \<open>
  The callback has no test of its own for a destroyed instance: run on an announcement
  that the library still hands to it, it appends the endpoint, and the array the promise
  was resolved with holds it too.
\<close>

lemma announcement_after_destroy:
  "keyLights (app (deliver_all [Up desk_service, Up shelf_service]
      (start_browsing one_preferences no_lights))) = [desk, shelf]"
  "find (deliver_all [Up desk_service, Up shelf_service]
      (start_browsing one_preferences no_lights)) = Fulfilled KeyLights_array"
  by (simp_all add: deliver_all_def start_browsing_def on_service_def desk_service_def
      shelf_service_def no_lights_def parseInt_examples one_preferences_def desk_def shelf_def
      resolve_def Let_def)


end
